theory Spec2Isabelle
  imports
    Main
    "HOL-Library.Multiset"
    "HOL-Library.Char_ord"
    "HOL-Library.List_Lexorder"
begin

section \<open>The relational store\<close>

text \<open>
  The endpoint reads two tables, \<open>ev_registrations\<close> and \<open>charging_stations\<close>. Every
  column is nullable: an SQL value is an \<open>option\<close>, \<open>None\<close> being NULL. A table is a
  list of rows; only the bag of rows is meaningful, which is why the answers of the
  queries below are fixed only as far as SQL fixes them. Text is a list of bytes.
\<close>

type_synonym sql_text = "string option"

type_synonym sql_bool = "bool option"

text \<open>
  A date is a calendar date or one of the two infinite dates. The year of a calendar date
  is the number that \<open>EXTRACT(YEAR FROM d)\<close> returns: negative for a year before the
  common era (\<open>-44\<close> for 44 BC).
\<close>

datatype date =
  Date (date_year: int) (date_month: nat) (date_day: nat)
| Infinity
| Minus_infinity

record registration =
  reg_state :: sql_text
  reg_brand :: sql_text
  date_reg :: "date option"
  fuel :: sql_text

record 'c station =
  name :: sql_text
  latitude :: 'c
  longitude :: 'c
  station_state :: sql_text

text \<open>
  A collation orders texts. The database compares two texts with the collation of its
  locale and breaks ties byte by byte, so the order is linear; which linear order it is
  depends on the locale. \<open>collate c a b\<close> reads: \<open>a\<close> sorts before \<open>b\<close> or is \<open>b\<close>.
\<close>

typedef collation =
  "{le :: string \<Rightarrow> string \<Rightarrow> bool.
      (\<forall>a. le a a) \<and> (\<forall>a b c. le a b \<longrightarrow> le b c \<longrightarrow> le a c) \<and>
      (\<forall>a b. le a b \<longrightarrow> le b a \<longrightarrow> a = b) \<and> (\<forall>a b. le a b \<or> le b a)}"
  morphisms collate Collation
proof
  show "(\<le>) \<in> {le :: string \<Rightarrow> string \<Rightarrow> bool.
      (\<forall>a. le a a) \<and> (\<forall>a b c. le a b \<longrightarrow> le b c \<longrightarrow> le a c) \<and>
      (\<forall>a b. le a b \<longrightarrow> le b a \<longrightarrow> a = b) \<and> (\<forall>a b. le a b \<or> le b a)}"
    by auto
qed

declare collate_inverse [code abstype]

text \<open>The collation of the \<open>C\<close> locale compares byte by byte.\<close>

definition C_collation :: collation where
  "C_collation = Collation (\<le>)"

text \<open>
  A store holds the two tables and the locale of the database: what \<open>UPPER\<close> does to a
  text (\<open>lc_upper\<close>) and how texts are ordered (\<open>lc_collate\<close>).
\<close>

record 'c store =
  ev_registrations :: "registration list"
  charging_stations :: "'c station list"
  lc_upper :: "string \<Rightarrow> string"
  lc_collate :: collation

section \<open>The SQL functions and operators the queries use\<close>

text \<open>\<open>TRIM(s)\<close> removes the spaces (and only the spaces) at both ends.\<close>

definition trim :: "string \<Rightarrow> string" where
  "trim s = rev (dropWhile (\<lambda>c. c = CHR '' '') (rev (dropWhile (\<lambda>c. c = CHR '' '') s)))"

definition TRIM :: "sql_text \<Rightarrow> sql_text" where
  "TRIM v = map_option trim v"

text \<open>
  \<open>UPPER(s)\<close> follows the locale of the database, so the function on texts is a
  parameter. In the \<open>C\<close> locale it works on bytes: the letters \<open>a\<close> to \<open>z\<close> become \<open>A\<close>
  to \<open>Z\<close> and every other byte stays.
\<close>

definition UPPER :: "(string \<Rightarrow> string) \<Rightarrow> sql_text \<Rightarrow> sql_text" where
  "UPPER up v = map_option up v"

definition upper_char :: "char \<Rightarrow> char" where
  "upper_char c =
     (if CHR ''a'' \<le> c \<and> c \<le> CHR ''z'' then char_of (of_char c - (32::nat)) else c)"

definition C_upper :: "string \<Rightarrow> string" where
  "C_upper s = map upper_char s"

text \<open>Decimal text of a number, and the same padded with zeros on the left.\<close>

definition digit_char :: "nat \<Rightarrow> char" where
  "digit_char d = char_of (48 + d)"

fun nat_text :: "nat \<Rightarrow> string" where
  "nat_text n = (if n < 10 then [digit_char n] else nat_text (n div 10) @ [digit_char (n mod 10)])"

declare nat_text.simps [simp del]

definition int_text :: "int \<Rightarrow> string" where
  "int_text i = (if i < 0 then CHR ''-'' # nat_text (nat (- i)) else nat_text (nat i))"

definition zero_pad :: "nat \<Rightarrow> string \<Rightarrow> string" where
  "zero_pad w s = replicate (w - length s) (CHR ''0'') @ s"

text \<open>
  \<open>TO_CHAR(d, 'YYYY-MM')\<close>: NULL for an infinite date; for a calendar date the year
  without its sign on at least four digits, and the month on two.
\<close>

definition TO_CHAR_YYYY_MM :: "date option \<Rightarrow> sql_text" where
  "TO_CHAR_YYYY_MM v =
     (case v of
        None \<Rightarrow> None
      | Some (Date y m d) \<Rightarrow> Some (zero_pad 4 (nat_text (nat \<bar>y\<bar>)) @ ''-'' @ zero_pad 2 (nat_text m))
      | Some Infinity \<Rightarrow> None
      | Some Minus_infinity \<Rightarrow> None)"

text \<open>\<open>EXTRACT(YEAR FROM d)::text\<close>: the year with its sign, or the text of an infinity.\<close>

definition EXTRACT_YEAR_text :: "date option \<Rightarrow> sql_text" where
  "EXTRACT_YEAR_text v =
     (case v of
        None \<Rightarrow> None
      | Some (Date y m d) \<Rightarrow> Some (int_text y)
      | Some Infinity \<Rightarrow> Some ''Infinity''
      | Some Minus_infinity \<Rightarrow> Some ''-Infinity'')"

text \<open>Three-valued logic: \<open>None\<close> is the truth value \<open>unknown\<close>.\<close>

definition IS_NOT_NULL :: "'a option \<Rightarrow> sql_bool" where
  "IS_NOT_NULL v = Some (v \<noteq> None)"

definition sql_neq :: "sql_text \<Rightarrow> sql_text \<Rightarrow> sql_bool" where
  "sql_neq a b = (case a of None \<Rightarrow> None | Some x \<Rightarrow> (case b of None \<Rightarrow> None | Some y \<Rightarrow> Some (x \<noteq> y)))"

definition sql_IN :: "sql_text \<Rightarrow> string list \<Rightarrow> sql_bool" where
  "sql_IN a xs = (case a of None \<Rightarrow> None | Some x \<Rightarrow> Some (x \<in> set xs))"

definition sql_AND :: "sql_bool \<Rightarrow> sql_bool \<Rightarrow> sql_bool" where
  "sql_AND a b =
     (if a = Some False \<or> b = Some False then Some False
      else if a = Some True \<and> b = Some True then Some True
      else None)"

text \<open>\<open>WHERE\<close> keeps the rows whose condition is true (neither false nor unknown).\<close>

definition WHERE :: "('r \<Rightarrow> sql_bool) \<Rightarrow> 'r list \<Rightarrow> 'r list" where
  "WHERE cond rows = filter (\<lambda>r. cond r = Some True) rows"

text \<open>
  \<open>ORDER BY\<close> on a text column, ascending: the texts in the order of the collation,
  NULLs last. \<open>order_le c a b\<close> reads: \<open>a\<close> may stand before \<open>b\<close>.
\<close>

definition order_le :: "collation \<Rightarrow> sql_text \<Rightarrow> sql_text \<Rightarrow> bool" where
  "order_le c a b =
     (case b of None \<Rightarrow> True | Some y \<Rightarrow> (case a of None \<Rightarrow> False | Some x \<Rightarrow> collate c x y))"

text \<open>Sorting by insertion, for an order given as a function.\<close>

fun insert_by :: "('a \<Rightarrow> 'a \<Rightarrow> bool) \<Rightarrow> 'a \<Rightarrow> 'a list \<Rightarrow> 'a list" where
  "insert_by le x [] = [x]"
| "insert_by le x (y # ys) = (if le x y then x # y # ys else y # insert_by le x ys)"

definition sort_by :: "('a \<Rightarrow> 'a \<Rightarrow> bool) \<Rightarrow> 'a list \<Rightarrow> 'a list" where
  "sort_by le xs = foldr (insert_by le) xs []"

text \<open>
  \<open>SELECT DISTINCT e ... ORDER BY e\<close> on a single text column: no two rows are equal and
  the sort key is the whole row, so the answer is one list.
\<close>

definition DISTINCT_ORDER_BY :: "collation \<Rightarrow> sql_text list \<Rightarrow> sql_text list" where
  "DISTINCT_ORDER_BY c vs = sort_by (order_le c) (remdups vs)"

section \<open>The five queries\<close>

definition EV_FUELS :: "string list" where
  "EV_FUELS = [''electric'', ''hybrid_petrol'', ''hybrid_diesel'']"

subsection \<open>chartQuery\<close>

text \<open>
  A value as the database driver hands it to the handler and \<open>res.json\<close> writes it: a
  number or a text. The driver delivers a \<open>bigint\<close>, the type of \<open>COUNT(*)\<close>, as the
  decimal text of the number.
\<close>

datatype js_value = JS_number int | JS_string string

definition bigint_value :: "nat \<Rightarrow> js_value" where
  "bigint_value n = JS_string (nat_text n)"

record chart_row =
  state :: sql_text
  brand :: sql_text
  month :: sql_text
  registrations :: js_value

definition chart_where :: "registration \<Rightarrow> sql_bool" where
  "chart_where g =
     sql_AND (sql_AND (sql_AND (sql_AND (sql_AND
       (IS_NOT_NULL (reg_state g))
       (sql_neq (TRIM (reg_state g)) (Some [])))
       (IS_NOT_NULL (reg_brand g)))
       (sql_neq (TRIM (reg_brand g)) (Some [])))
       (IS_NOT_NULL (date_reg g)))
       (sql_IN (fuel g) EV_FUELS)"

text \<open>The three \<open>GROUP BY\<close> expressions.\<close>

definition chart_key :: "(string \<Rightarrow> string) \<Rightarrow> registration \<Rightarrow> sql_text \<times> sql_text \<times> sql_text" where
  "chart_key up g =
     (UPPER up (TRIM (reg_state g)), UPPER up (TRIM (reg_brand g)), TO_CHAR_YYYY_MM (date_reg g))"

text \<open>One row per group, with \<open>COUNT(*)\<close> of the group.\<close>

definition chart_group ::
  "(string \<Rightarrow> string) \<Rightarrow> registration list \<Rightarrow> sql_text \<times> sql_text \<times> sql_text \<Rightarrow> chart_row" where
  "chart_group up gs k =
     \<lparr>state = fst k, brand = fst (snd k), month = snd (snd k),
      registrations = bigint_value (length (filter (\<lambda>g. chart_key up g = k) gs))\<rparr>"

definition chart_groups :: "(string \<Rightarrow> string) \<Rightarrow> registration list \<Rightarrow> chart_row list" where
  "chart_groups up regs =
     (let gs = WHERE chart_where regs
      in map (chart_group up gs) (remdups (map (chart_key up) gs)))"

text \<open>
  \<open>ORDER BY month\<close>: the answer holds the groups, each once, ascending by month. SQL
  leaves the order of groups of the same month open, so the query has several possible
  answers and is a predicate on the rows returned.
\<close>

definition chartQuery :: "'c store \<Rightarrow> chart_row list \<Rightarrow> bool" where
  "chartQuery st rows =
     (mset rows = mset (chart_groups (lc_upper st) (ev_registrations st)) \<and>
      sorted_wrt (\<lambda>r s. order_le (lc_collate st) (month r) (month s)) rows)"

subsection \<open>brandQuery, stateQuery, yearQuery\<close>

datatype brand_row = Brand_row (brand_col: sql_text)

datatype state_row = State_row (state_col: sql_text)

datatype year_row = Year_row (year_col: sql_text)

definition brand_where :: "registration \<Rightarrow> sql_bool" where
  "brand_where g =
     sql_AND (sql_AND
       (IS_NOT_NULL (reg_brand g))
       (sql_neq (TRIM (reg_brand g)) (Some [])))
       (sql_IN (fuel g) EV_FUELS)"

definition brandQuery :: "'c store \<Rightarrow> brand_row list" where
  "brandQuery st =
     map Brand_row (DISTINCT_ORDER_BY (lc_collate st)
       (map (\<lambda>g. UPPER (lc_upper st) (TRIM (reg_brand g))) (WHERE brand_where (ev_registrations st))))"

definition state_where :: "registration \<Rightarrow> sql_bool" where
  "state_where g =
     sql_AND (sql_AND
       (IS_NOT_NULL (reg_state g))
       (sql_neq (TRIM (reg_state g)) (Some [])))
       (sql_IN (fuel g) EV_FUELS)"

definition stateQuery :: "'c store \<Rightarrow> state_row list" where
  "stateQuery st =
     map State_row (DISTINCT_ORDER_BY (lc_collate st)
       (map (\<lambda>g. UPPER (lc_upper st) (TRIM (reg_state g))) (WHERE state_where (ev_registrations st))))"

definition year_where :: "registration \<Rightarrow> sql_bool" where
  "year_where g = sql_AND (IS_NOT_NULL (date_reg g)) (sql_IN (fuel g) EV_FUELS)"

definition yearQuery :: "'c store \<Rightarrow> year_row list" where
  "yearQuery st =
     map Year_row (DISTINCT_ORDER_BY (lc_collate st)
       (map (\<lambda>g. EXTRACT_YEAR_text (date_reg g)) (WHERE year_where (ev_registrations st))))"

subsection \<open>stationQuery\<close>

text \<open>No \<open>WHERE\<close>, no \<open>ORDER BY\<close>: every station row, in an order SQL does not fix.\<close>

definition stationQuery :: "'c store \<Rightarrow> 'c station list \<Rightarrow> bool" where
  "stationQuery st rows = (mset rows = mset (charging_stations st))"

section \<open>The handler of \<open>GET /api/data\<close>\<close>

text \<open>
  \<open>pool.query\<close> either resolves with the rows of an answer or rejects with an error.
  The handler awaits the five promises together; \<open>query_results\<close> holds how each one
  settled.
\<close>

datatype 'r settled = Rejected string | Resolved "'r list"

record 'c query_results =
  chartResult :: "chart_row settled"
  brandResult :: "brand_row settled"
  stateResult :: "state_row settled"
  yearResult :: "year_row settled"
  stationResult :: "'c station settled"

text \<open>
  A run of the five queries against a store: a query that resolves does so with an answer
  of that query on the store. Any of them may also reject (connection lost, SQL error).
\<close>

definition settles :: "('r list \<Rightarrow> bool) \<Rightarrow> 'r settled \<Rightarrow> bool" where
  "settles answer p = (case p of Rejected err \<Rightarrow> True | Resolved rows \<Rightarrow> answer rows)"

definition pool_query :: "'c store \<Rightarrow> 'c query_results \<Rightarrow> bool" where
  "pool_query st qs =
     (settles (chartQuery st) (chartResult qs) \<and>
      settles (\<lambda>rows. rows = brandQuery st) (brandResult qs) \<and>
      settles (\<lambda>rows. rows = stateQuery st) (stateResult qs) \<and>
      settles (\<lambda>rows. rows = yearQuery st) (yearResult qs) \<and>
      settles (stationQuery st) (stationResult qs))"

text \<open>
  A \<open>GET\<close> request: its query string, its headers (names in lower case, as the handler
  sees them) and its body.
\<close>

record request =
  req_query :: "(string \<times> string) list"
  req_headers :: "(string \<times> string) list"
  req_body :: string

record filter_lists =
  brands :: "sql_text list"
  states :: "sql_text list"
  years :: "sql_text list"

record 'c envelope =
  chartData :: "chart_row list"
  stationData :: "'c station list"
  filters :: filter_lists

datatype 'c body = Json "'c envelope" | Text string | Empty

record 'c response =
  status :: nat
  body :: "'c body"

text \<open>
  \<open>res.json\<close> writes the envelope with the default status 200, unless the framework
  finds the request fresh: it then answers 304 with no body. Whether a request is fresh
  for a body is the framework's test (\<open>req.fresh\<close>), a parameter here.
\<close>

definition res_json :: "(request \<Rightarrow> 'c envelope \<Rightarrow> bool) \<Rightarrow> request \<Rightarrow> 'c envelope \<Rightarrow> 'c response" where
  "res_json fresh req env =
     (if fresh req env then \<lparr>status = 304, body = Empty\<rparr> else \<lparr>status = 200, body = Json env\<rparr>)"

text \<open>
  The handler. \<open>Promise.all\<close> rejects as soon as one of the five does, and the
  \<open>catch\<close> block answers 500 with a fixed text; otherwise the envelope goes to
  \<open>res.json\<close>. The body of the handler never uses the request; it reaches the response
  only through \<open>res.json\<close>. The text sent on failure is the only place where the
  responses of the two copies of the server differ, so it is a parameter. The lines
  written to the console in the \<open>catch\<close> block are not part of the response and are left
  out.
\<close>

fun fulfilled :: "'r settled \<Rightarrow> 'r list option" where
  "fulfilled (Rejected err) = None"
| "fulfilled (Resolved rows) = Some rows"

definition api_data_handler ::
  "(request \<Rightarrow> 'c envelope \<Rightarrow> bool) \<Rightarrow> string \<Rightarrow> request \<Rightarrow> 'c query_results \<Rightarrow> 'c response" where
  "api_data_handler fresh message req qs =
     (case (fulfilled (chartResult qs), fulfilled (brandResult qs), fulfilled (stateResult qs),
            fulfilled (yearResult qs), fulfilled (stationResult qs)) of
        (Some chart_rows, Some brand_rows, Some state_rows, Some year_rows, Some station_rows) \<Rightarrow>
          res_json fresh req
            \<lparr>chartData = chart_rows,
             stationData = station_rows,
             filters = \<lparr>brands = map brand_col brand_rows,
                        states = map state_col state_rows,
                        years = map year_col year_rows\<rparr>\<rparr>
      | _ \<Rightarrow> \<lparr>status = 500, body = Text message\<rparr>)"

definition server_js_message :: string where
  "server_js_message = ''A critical error occurred while fetching data from the database.''"

definition part_000_message :: string where
  "part_000_message = ''A critical error occurred while fetching data.''"

definition api_data ::
  "(request \<Rightarrow> 'c envelope \<Rightarrow> bool) \<Rightarrow> request \<Rightarrow> 'c query_results \<Rightarrow> 'c response" where
  "api_data fresh = api_data_handler fresh server_js_message"

definition api_data_part_000 ::
  "(request \<Rightarrow> 'c envelope \<Rightarrow> bool) \<Rightarrow> request \<Rightarrow> 'c query_results \<Rightarrow> 'c response" where
  "api_data_part_000 fresh = api_data_handler fresh part_000_message"

subsection \<open>The freshness test of the framework\<close>

text \<open>
  Express evaluates \<open>req.fresh\<close> in \<open>res.send\<close>, which \<open>res.json\<close> calls, for a \<open>GET\<close>
  request and a status 2xx. The test reads three request headers and compares them with
  the \<open>ETag\<close> that Express computes for the body (the response of this handler has no
  \<open>Last-Modified\<close>). A header that the request does not have counts as the empty text.
  The tag of a body is a setting of the application (by default derived from a hash of
  the body), a parameter here; the empty text stands for no tag.
\<close>

definition header :: "string \<Rightarrow> request \<Rightarrow> string" where
  "header h req = (case map_of (req_headers req) h of None \<Rightarrow> [] | Some v \<Rightarrow> v)"

fun split_commas :: "string \<Rightarrow> string list" where
  "split_commas [] = [[]]"
| "split_commas (c # cs) =
     (if c = CHR '','' then [] # split_commas cs
      else (case split_commas cs of [] \<Rightarrow> [[c]] | t # ts \<Rightarrow> (c # t) # ts))"

text \<open>The entity tags listed in \<open>If-None-Match\<close>: split at the commas, spaces trimmed.\<close>

definition parseTokenList :: "string \<Rightarrow> string list" where
  "parseTokenList s = map trim (split_commas s)"

text \<open>White space as the regular expression class \<open>\s\<close> sees it in a header value.\<close>

definition js_space :: "char \<Rightarrow> bool" where
  "js_space c = (of_char c \<in> {9, 10, 11, 12, 13, 32, 160 :: nat})"

definition strip :: "string \<Rightarrow> string" where
  "strip s = rev (dropWhile js_space (rev (dropWhile js_space s)))"

text \<open>\<open>Cache-Control\<close> lists the directive \<open>no-cache\<close>.\<close>

definition no_cache :: "string \<Rightarrow> bool" where
  "no_cache v = (''no-cache'' \<in> set (map strip (split_commas v)))"

text \<open>Weak comparison of a listed tag with the tag of the body.\<close>

definition etag_matches :: "string \<Rightarrow> string \<Rightarrow> bool" where
  "etag_matches tag v =
     list_ex (\<lambda>m. m = tag \<or> m = ''W/'' @ tag \<or> ''W/'' @ m = tag) (parseTokenList v)"

definition express_fresh :: "('c envelope \<Rightarrow> string) \<Rightarrow> request \<Rightarrow> 'c envelope \<Rightarrow> bool" where
  "express_fresh etag req env =
     (let modifiedSince = header ''if-modified-since'' req;
          noneMatch = header ''if-none-match'' req
      in if modifiedSince = [] \<and> noneMatch = [] then False
         else if no_cache (header ''cache-control'' req) then False
         else if noneMatch \<noteq> [] \<and> noneMatch \<noteq> ''*'' \<and>
                 (etag env = [] \<or> \<not> etag_matches (etag env) noneMatch) then False
         else if modifiedSince \<noteq> [] then False
         else True)"

text \<open>A request without \<open>If-None-Match\<close> and \<open>If-Modified-Since\<close>.\<close>

definition unconditional :: "request \<Rightarrow> bool" where
  "unconditional req = (header ''if-none-match'' req = [] \<and> header ''if-modified-since'' req = [])"

section \<open>The predicates of the specification\<close>

text \<open>
  The qualifying predicate in the words of the specification, two-valued: a NULL column
  never qualifies. \<open>brand_qualifying\<close> and \<open>state_qualifying\<close> keep the conditions on one text
  column and on the fuel; \<open>year_qualifying\<close> keeps those on the date and on the fuel.
\<close>

definition non_blank :: "sql_text \<Rightarrow> bool" where
  "non_blank v = (case v of None \<Rightarrow> False | Some s \<Rightarrow> trim s \<noteq> [])"

definition ev_fuel :: "sql_text \<Rightarrow> bool" where
  "ev_fuel v = (case v of None \<Rightarrow> False | Some f \<Rightarrow> f \<in> set EV_FUELS)"

definition qualifying :: "registration \<Rightarrow> bool" where
  "qualifying g =
     (non_blank (reg_state g) \<and> non_blank (reg_brand g) \<and> date_reg g \<noteq> None \<and> ev_fuel (fuel g))"

definition brand_qualifying :: "registration \<Rightarrow> bool" where
  "brand_qualifying g = (non_blank (reg_brand g) \<and> ev_fuel (fuel g))"

definition state_qualifying :: "registration \<Rightarrow> bool" where
  "state_qualifying g = (non_blank (reg_state g) \<and> ev_fuel (fuel g))"

definition year_qualifying :: "registration \<Rightarrow> bool" where
  "year_qualifying g = (date_reg g \<noteq> None \<and> ev_fuel (fuel g))"

text \<open>Strictly ascending in the order of a collation.\<close>

definition collate_less :: "collation \<Rightarrow> string \<Rightarrow> string \<Rightarrow> bool" where
  "collate_less c a b = (collate c a b \<and> a \<noteq> b)"

text \<open>The number that a decimal text denotes, read from the left.\<close>

definition digits_value :: "string \<Rightarrow> nat" where
  "digits_value s = foldl (\<lambda>a c. 10 * a + (of_char c - 48)) 0 s"

text \<open>The year that the text of a year denotes.\<close>

definition year_value :: "string \<Rightarrow> int" where
  "year_value s =
     (case s of [] \<Rightarrow> 0
      | c # cs \<Rightarrow> if c = CHR ''-'' then - int (digits_value cs) else int (digits_value s))"

text \<open>
  What the facts below need of \<open>UPPER\<close>: a text that is not blank stays so
  (\<open>keeps_blank\<close>), and, for the scenario, texts of ASCII characters are treated as in the
  \<open>C\<close> locale (\<open>upper_on_ascii\<close>).
\<close>

definition keeps_blank :: "(string \<Rightarrow> string) \<Rightarrow> bool" where
  "keeps_blank up = (\<forall>s. (trim (up s) = []) = (trim s = []))"

definition ascii :: "string \<Rightarrow> bool" where
  "ascii s = list_all (\<lambda>c. of_char c < (128::nat)) s"

definition upper_on_ascii :: "(string \<Rightarrow> string) \<Rightarrow> bool" where
  "upper_on_ascii up = (\<forall>s. ascii s \<longrightarrow> up s = C_upper s)"

definition ascii_text :: "sql_text \<Rightarrow> bool" where
  "ascii_text v = (case v of None \<Rightarrow> True | Some s \<Rightarrow> ascii s)"

text \<open>No registration of the store has an infinite date.\<close>

definition calendar_date :: "date option \<Rightarrow> bool" where
  "calendar_date v = (v \<noteq> Some Infinity \<and> v \<noteq> Some Minus_infinity)"

definition calendar_dates :: "'c store \<Rightarrow> bool" where
  "calendar_dates st = list_all (\<lambda>g. calendar_date (date_reg g)) (ev_registrations st)"

text \<open>The years of the store's dates are all written with four digits.\<close>

definition four_digit_year :: "date option \<Rightarrow> bool" where
  "four_digit_year v =
     (case v of Some (Date y m d) \<Rightarrow> 1000 \<le> y \<and> y \<le> 9999 | _ \<Rightarrow> True)"

definition four_digit_years :: "'c store \<Rightarrow> bool" where
  "four_digit_years st = list_all (\<lambda>g. four_digit_year (date_reg g)) (ev_registrations st)"

section \<open>Example stores and runs\<close>

text \<open>
  The registrations of the scenario of the specification, and the store that holds them
  with a given locale and given charging stations.
\<close>

definition scenario_registrations :: "registration list" where
  "scenario_registrations =
     [\<lparr>reg_state = Some ''ca '', reg_brand = Some ''Tesla'',
       date_reg = Some (Date 2024 3 15), fuel = Some ''electric''\<rparr>,
      \<lparr>reg_state = Some ''CA'', reg_brand = Some ''tesla'',
       date_reg = Some (Date 2024 3 20), fuel = Some ''electric''\<rparr>,
      \<lparr>reg_state = Some ''TX'', reg_brand = Some ''Ford'',
       date_reg = Some (Date 2023 11 1), fuel = Some ''diesel''\<rparr>]"

definition scenario :: "(string \<Rightarrow> string) \<Rightarrow> collation \<Rightarrow> 'c station list \<Rightarrow> 'c store" where
  "scenario up c sts =
     \<lparr>ev_registrations = scenario_registrations, charging_stations = sts,
      lc_upper = up, lc_collate = c\<rparr>"

text \<open>
  A run on the scenario in which the five queries resolve, two requests, one of them
  conditional, and a tag function for the examples.
\<close>

definition example_request :: request where
  "example_request =
     \<lparr>req_query = [(''year'', ''2023'')], req_headers = [(''accept'', ''text/html'')], req_body = ''{}''\<rparr>"

definition plain_request :: request where
  "plain_request = \<lparr>req_query = [], req_headers = [], req_body = []\<rparr>"

definition conditional_request :: request where
  "conditional_request =
     \<lparr>req_query = [], req_headers = [(''if-none-match'', ''*'')], req_body = []\<rparr>"

definition example_etag :: "int envelope \<Rightarrow> string" where
  "example_etag env = ''W/\"'' @ nat_text (length (chartData env)) @ ''\"''"

definition example_stations :: "int station list" where
  "example_stations =
     [\<lparr>name = Some ''Plaza'', latitude = 3, longitude = 101, station_state = Some ''Selangor''\<rparr>,
      \<lparr>name = Some ''Depot'', latitude = 5, longitude = 100, station_state = Some ''Penang''\<rparr>]"

definition scenario_row :: chart_row where
  "scenario_row =
     \<lparr>state = Some ''CA'', brand = Some ''TESLA'', month = Some ''2024-03'',
      registrations = JS_string ''2''\<rparr>"

definition scenario_results :: "'c station list \<Rightarrow> 'c query_results" where
  "scenario_results sts =
     \<lparr>chartResult = Resolved [scenario_row],
      brandResult = Resolved [Brand_row (Some ''TESLA'')],
      stateResult = Resolved [State_row (Some ''CA'')],
      yearResult = Resolved [Year_row (Some ''2024'')],
      stationResult = Resolved sts\<rparr>"

definition scenario_envelope :: "'c station list \<Rightarrow> 'c envelope" where
  "scenario_envelope sts =
     \<lparr>chartData = [scenario_row], stationData = sts,
      filters = \<lparr>brands = [Some ''TESLA''], states = [Some ''CA''], years = [Some ''2024'']\<rparr>\<rparr>"

text \<open>
  A store in the \<open>C\<close> locale with two qualifying registrations of the same month in
  different states, and the runs on it, which differ only in the order of the two chart
  rows.
\<close>

definition same_month_store :: "int store" where
  "same_month_store =
     \<lparr>ev_registrations =
        [\<lparr>reg_state = Some ''CA'', reg_brand = Some ''Tesla'',
          date_reg = Some (Date 2024 3 15), fuel = Some ''electric''\<rparr>,
         \<lparr>reg_state = Some ''TX'', reg_brand = Some ''Tesla'',
          date_reg = Some (Date 2024 3 20), fuel = Some ''electric''\<rparr>],
      charging_stations = [], lc_upper = C_upper, lc_collate = C_collation\<rparr>"

definition same_month_results :: "chart_row list \<Rightarrow> int query_results" where
  "same_month_results chart_rows =
     \<lparr>chartResult = Resolved chart_rows,
      brandResult = Resolved [Brand_row (Some ''TESLA'')],
      stateResult = Resolved [State_row (Some ''CA''), State_row (Some ''TX'')],
      yearResult = Resolved [Year_row (Some ''2024'')],
      stationResult = Resolved []\<rparr>"

definition same_month_envelope :: "chart_row list \<Rightarrow> int envelope" where
  "same_month_envelope chart_rows =
     \<lparr>chartData = chart_rows, stationData = [],
      filters = \<lparr>brands = [Some ''TESLA''], states = [Some ''CA'', Some ''TX''], years = [Some ''2024'']\<rparr>\<rparr>"

definition CA_row :: chart_row where
  "CA_row = \<lparr>state = Some ''CA'', brand = Some ''TESLA'', month = Some ''2024-03'',
     registrations = JS_string ''1''\<rparr>"

definition TX_row :: chart_row where
  "TX_row = \<lparr>state = Some ''TX'', brand = Some ''TESLA'', month = Some ''2024-03'',
     registrations = JS_string ''1''\<rparr>"

text \<open>
  A store whose only registration has a brand and an electric fuel but neither a state
  nor a date, and one whose only registration has a state but no brand.
\<close>

definition brand_only_store :: "int store" where
  "brand_only_store =
     \<lparr>ev_registrations =
        [\<lparr>reg_state = None, reg_brand = Some ''Tesla'', date_reg = None, fuel = Some ''electric''\<rparr>],
      charging_stations = [], lc_upper = C_upper, lc_collate = C_collation\<rparr>"

definition state_only_store :: "int store" where
  "state_only_store =
     \<lparr>ev_registrations =
        [\<lparr>reg_state = Some ''CA'', reg_brand = None,
          date_reg = Some (Date 2024 3 15), fuel = Some ''electric''\<rparr>],
      charging_stations = [], lc_upper = C_upper, lc_collate = C_collation\<rparr>"

text \<open>
  A store whose only registration qualifies and has the date \<open>infinity\<close>, and the run on
  it in which the five queries resolve.
\<close>

definition infinite_date_store :: "int store" where
  "infinite_date_store =
     \<lparr>ev_registrations =
        [\<lparr>reg_state = Some ''CA'', reg_brand = Some ''Tesla'',
          date_reg = Some Infinity, fuel = Some ''electric''\<rparr>],
      charging_stations = [], lc_upper = C_upper, lc_collate = C_collation\<rparr>"

definition infinite_date_row :: chart_row where
  "infinite_date_row =
     \<lparr>state = Some ''CA'', brand = Some ''TESLA'', month = None, registrations = JS_string ''1''\<rparr>"

definition infinite_date_results :: "int query_results" where
  "infinite_date_results =
     \<lparr>chartResult = Resolved [infinite_date_row],
      brandResult = Resolved [Brand_row (Some ''TESLA'')],
      stateResult = Resolved [State_row (Some ''CA'')],
      yearResult = Resolved [Year_row (Some ''Infinity'')],
      stationResult = Resolved []\<rparr>"

text \<open>
  A store in the \<open>C\<close> locale with qualifying registrations of the years 999 and 2024, and
  the run on it in which the five queries resolve.
\<close>

definition two_years_store :: "int store" where
  "two_years_store =
     \<lparr>ev_registrations =
        [\<lparr>reg_state = Some ''CA'', reg_brand = Some ''Tesla'',
          date_reg = Some (Date 999 3 15), fuel = Some ''electric''\<rparr>,
         \<lparr>reg_state = Some ''CA'', reg_brand = Some ''Tesla'',
          date_reg = Some (Date 2024 3 20), fuel = Some ''electric''\<rparr>],
      charging_stations = [], lc_upper = C_upper, lc_collate = C_collation\<rparr>"

definition two_years_results :: "int query_results" where
  "two_years_results =
     \<lparr>chartResult = Resolved
        [\<lparr>state = Some ''CA'', brand = Some ''TESLA'', month = Some ''0999-03'',
          registrations = JS_string ''1''\<rparr>,
         \<lparr>state = Some ''CA'', brand = Some ''TESLA'', month = Some ''2024-03'',
          registrations = JS_string ''1''\<rparr>],
      brandResult = Resolved [Brand_row (Some ''TESLA'')],
      stateResult = Resolved [State_row (Some ''CA'')],
      yearResult = Resolved [Year_row (Some ''2024''), Year_row (Some ''999'')],
      stationResult = Resolved []\<rparr>"

definition two_years_envelope :: "int envelope" where
  "two_years_envelope =
     \<lparr>chartData =
        [\<lparr>state = Some ''CA'', brand = Some ''TESLA'', month = Some ''0999-03'',
          registrations = JS_string ''1''\<rparr>,
         \<lparr>state = Some ''CA'', brand = Some ''TESLA'', month = Some ''2024-03'',
          registrations = JS_string ''1''\<rparr>],
      stationData = [],
      filters = \<lparr>brands = [Some ''TESLA''], states = [Some ''CA''],
                 years = [Some ''2024'', Some ''999'']\<rparr>\<rparr>"

definition infinite_date_envelope :: "int envelope" where
  "infinite_date_envelope =
     \<lparr>chartData = [infinite_date_row], stationData = [],
      filters = \<lparr>brands = [Some ''TESLA''], states = [Some ''CA''], years = [Some ''Infinity'']\<rparr>\<rparr>"

text \<open>The chart row of the scenario with the count as a number.\<close>

definition scenario_row_number :: chart_row where
  "scenario_row_number =
     \<lparr>state = Some ''CA'', brand = Some ''TESLA'', month = Some ''2024-03'',
      registrations = JS_number 2\<rparr>"

section \<open>Facts about the SQL operators\<close>

subsection \<open>The conditions of the queries, two-valued\<close>

lemma chart_where_iff: "chart_where g = Some True \<longleftrightarrow> qualifying g"
  by (auto simp: chart_where_def sql_AND_def IS_NOT_NULL_def sql_neq_def sql_IN_def TRIM_def
      qualifying_def non_blank_def ev_fuel_def split: option.splits)

lemma brand_where_iff: "brand_where g = Some True \<longleftrightarrow> brand_qualifying g"
  by (auto simp: brand_where_def sql_AND_def IS_NOT_NULL_def sql_neq_def sql_IN_def TRIM_def
      brand_qualifying_def non_blank_def ev_fuel_def split: option.splits)

lemma state_where_iff: "state_where g = Some True \<longleftrightarrow> state_qualifying g"
  by (auto simp: state_where_def sql_AND_def IS_NOT_NULL_def sql_neq_def sql_IN_def TRIM_def
      state_qualifying_def non_blank_def ev_fuel_def split: option.splits)

lemma year_where_iff: "year_where g = Some True \<longleftrightarrow> year_qualifying g"
  by (auto simp: year_where_def sql_AND_def IS_NOT_NULL_def sql_IN_def
      year_qualifying_def ev_fuel_def split: option.splits)

lemma trim_Nil_iff: "trim s = [] \<longleftrightarrow> (\<forall>c\<in>set s. c = CHR '' '')"
proof -
  let ?sp = "\<lambda>c. c = CHR '' ''"
  have "trim s = [] \<longleftrightarrow> (\<forall>c\<in>set (dropWhile ?sp s). ?sp c)"
    by (simp add: trim_def dropWhile_eq_Nil_conv)
  also have "\<dots> \<longleftrightarrow> dropWhile ?sp s = []"
  proof
    assume a: "\<forall>c\<in>set (dropWhile ?sp s). ?sp c"
    show "dropWhile ?sp s = []"
    proof (rule ccontr)
      assume n: "dropWhile ?sp s \<noteq> []"
      then have "\<not> ?sp (hd (dropWhile ?sp s))" by (rule hd_dropWhile)
      moreover from n have "hd (dropWhile ?sp s) \<in> set (dropWhile ?sp s)" by simp
      ultimately show False using a by blast
    qed
  qed (auto dest: set_dropWhileD)
  also have "\<dots> \<longleftrightarrow> (\<forall>c\<in>set s. ?sp c)"
    by (simp only: dropWhile_eq_Nil_conv)
  finally show ?thesis .
qed

lemma set_trim_subset: "set (trim s) \<subseteq> set s"
proof -
  have "set (trim s) \<subseteq> set (dropWhile (\<lambda>c. c = CHR '' '') s)"
    unfolding trim_def set_rev using set_dropWhileD by fastforce
  also have "\<dots> \<subseteq> set s" using set_dropWhileD by fastforce
  finally show ?thesis .
qed

lemma trim_idem: "trim (trim s) = trim s"
proof -
  let ?sp = "\<lambda>c. c = CHR '' ''"
  define t where "t = dropWhile ?sp s"
  define u where "u = dropWhile ?sp (rev t)"
  have ts: "trim s = rev u" by (simp add: trim_def t_def u_def)
  have "dropWhile ?sp (rev u) = rev u"
  proof (cases "u = []")
    case True then show ?thesis by simp
  next
    case False
    then have "rev t \<noteq> []" by (auto simp: u_def)
    then have tn: "t \<noteq> []" by simp
    obtain pre where "rev t = pre @ u"
      unfolding u_def by (metis takeWhile_dropWhile_id)
    then have "last (rev t) = last u" using False by simp
    then have "hd t = last u" using tn by (simp add: last_rev)
    moreover have "\<not> ?sp (hd t)" unfolding t_def using tn hd_dropWhile t_def by blast
    ultimately have "\<not> ?sp (hd (rev u))" using False by (simp add: hd_rev)
    then show ?thesis using False by (cases "rev u") auto
  qed
  then have "trim (rev u) = rev (dropWhile ?sp u)" by (simp add: trim_def)
  also have "\<dots> = rev u" by (simp add: u_def)
  finally show ?thesis by (simp add: ts)
qed

lemma upper_char_range:
  assumes "CHR ''a'' \<le> c" "c \<le> CHR ''z''"
  shows "(of_char (upper_char c) :: nat) = of_char c - 32" "65 \<le> (of_char (upper_char c) :: nat)"
    "(of_char (upper_char c) :: nat) \<le> 90"
proof -
  from assms have r: "97 \<le> (of_char c :: nat)" "(of_char c :: nat) \<le> 122"
    by (simp_all add: less_eq_char_def)
  have "(of_char (upper_char c) :: nat) = (of_char c - 32) mod 256"
    using assms by (simp add: upper_char_def)
  with r show "(of_char (upper_char c) :: nat) = of_char c - 32" by simp
  with r show "65 \<le> (of_char (upper_char c) :: nat)" "(of_char (upper_char c) :: nat) \<le> 90"
    by simp_all
qed

lemma upper_char_space: "upper_char c = CHR '' '' \<longleftrightarrow> c = CHR '' ''"
proof (cases "CHR ''a'' \<le> c \<and> c \<le> CHR ''z''")
  case True
  then have "65 \<le> (of_char (upper_char c) :: nat)" using upper_char_range(2) by blast
  then have "upper_char c \<noteq> CHR '' ''" by auto
  moreover from True have "c \<noteq> CHR '' ''" by (auto simp: less_eq_char_def)
  ultimately show ?thesis by simp
next
  case False
  then show ?thesis by (auto simp: upper_char_def)
qed

lemma trim_C_upper: "trim (C_upper s) = C_upper (trim s)"
proof -
  have *: "(\<lambda>c. c = CHR '' '') \<circ> upper_char = (\<lambda>c. c = CHR '' '')"
    by (auto simp: fun_eq_iff upper_char_space)
  have d: "dropWhile (\<lambda>c. c = CHR '' '') (map upper_char xs) = map upper_char (dropWhile (\<lambda>c. c = CHR '' '') xs)" for xs
    by (simp add: dropWhile_map *)
  show ?thesis
    by (simp add: C_upper_def trim_def d rev_map)
qed

lemma keeps_blank_C_upper: "keeps_blank C_upper"
  by (simp add: keeps_blank_def trim_C_upper) (simp add: C_upper_def)

lemma upper_on_ascii_C_upper: "upper_on_ascii C_upper"
  by (simp add: upper_on_ascii_def)


subsection \<open>Collations and sorting\<close>

lemma collate_C [code abstract]: "collate C_collation = (\<le>)"
  unfolding C_collation_def by (rule Collation_inverse) auto

lemma collate_refl: "collate c a a"
  using collate[of c] by blast

lemma collate_trans: "collate c a b \<Longrightarrow> collate c b d \<Longrightarrow> collate c a d"
  using collate[of c] by blast

lemma collate_antisym: "collate c a b \<Longrightarrow> collate c b a \<Longrightarrow> a = b"
  using collate[of c] by blast

lemma collate_total: "collate c a b \<or> collate c b a"
  using collate[of c] by blast

lemma collate_less_C: "collate_less C_collation a b \<longleftrightarrow> a < b"
  by (auto simp: collate_less_def collate_C)

lemma order_le_trans: "order_le c a b \<Longrightarrow> order_le c b d \<Longrightarrow> order_le c a d"
  by (auto simp: order_le_def split: option.splits intro: collate_trans)

lemma order_le_antisym: "order_le c a b \<Longrightarrow> order_le c b a \<Longrightarrow> a = b"
  by (auto simp: order_le_def split: option.splits intro: collate_antisym)

lemma order_le_total: "order_le c a b \<or> order_le c b a"
  using collate_total[of c] by (auto simp: order_le_def split: option.splits)

lemma set_insert_by: "set (insert_by le x xs) = insert x (set xs)"
  by (induction xs) auto

lemma distinct_insert_by: "distinct (insert_by le x xs) \<longleftrightarrow> x \<notin> set xs \<and> distinct xs"
  by (induction xs) (auto simp: set_insert_by)

lemma sorted_insert_by:
  assumes "\<And>a b. le a b \<or> le b a" and "\<And>a b d. le a b \<Longrightarrow> le b d \<Longrightarrow> le a d"
    and "sorted_wrt le xs"
  shows "sorted_wrt le (insert_by le x xs)"
  using assms(3)
proof (induction xs)
  case Nil
  then show ?case by simp
next
  case (Cons y ys)
  show ?case
  proof (cases "le x y")
    case True
    with Cons.prems assms(2) show ?thesis by auto
  next
    case False
    with assms(1) have "le y x" by blast
    with Cons False show ?thesis by (auto simp: set_insert_by)
  qed
qed

lemma set_sort_by: "set (sort_by le xs) = set xs"
  by (induction xs) (simp_all add: sort_by_def set_insert_by)

lemma distinct_sort_by: "distinct xs \<Longrightarrow> distinct (sort_by le xs)"
proof (induction xs)
  case Nil
  then show ?case by (simp add: sort_by_def)
next
  case (Cons x xs)
  then have "distinct (sort_by le xs)" "x \<notin> set (sort_by le xs)"
    by (simp_all add: set_sort_by)
  then show ?case
    using distinct_insert_by[of le x "sort_by le xs"] by (simp add: sort_by_def)
qed

lemma sorted_sort_by:
  assumes "\<And>a b. le a b \<or> le b a" and "\<And>a b d. le a b \<Longrightarrow> le b d \<Longrightarrow> le a d"
  shows "sorted_wrt le (sort_by le xs)"
proof (induction xs)
  case Nil
  then show ?case by (simp add: sort_by_def)
next
  case (Cons x xs)
  from sorted_insert_by[of le "sort_by le xs" x, OF assms Cons]
  show ?case by (simp add: sort_by_def)
qed

text \<open>Two lists with the same elements, both sorted by an antisymmetric relation, are equal.\<close>

lemma sorted_wrt_same_mset:
  assumes "\<And>a b. le a b \<Longrightarrow> le b a \<Longrightarrow> a = b"
    and "mset xs = mset ys" and "sorted_wrt le xs" and "sorted_wrt le ys"
  shows "xs = ys"
  using assms(2-4)
proof (induction xs arbitrary: ys)
  case Nil
  then show ?case by simp
next
  case (Cons x xs)
  from Cons.prems(1) obtain y ys' where ys: "ys = y # ys'"
    by (cases ys) auto
  have "x = y"
  proof (rule ccontr)
    assume n: "x \<noteq> y"
    from Cons.prems(1) have "set (x # xs) = set ys" by (rule mset_eq_setD)
    with ys n have "x \<in> set ys'" "y \<in> set xs" by auto
    with Cons.prems(2,3) ys have "le y x" "le x y" by auto
    with assms(1) n show False by blast
  qed
  with Cons.prems ys have "mset xs = mset ys'" "sorted_wrt le xs" "sorted_wrt le ys'" by auto
  with Cons.IH have "xs = ys'" by blast
  with \<open>x = y\<close> ys show ?case by simp
qed

subsection \<open>Ordered distinct lists\<close>

lemma set_DISTINCT_ORDER_BY: "set (DISTINCT_ORDER_BY c vs) = set vs"
  by (simp add: DISTINCT_ORDER_BY_def set_sort_by)

lemma distinct_DISTINCT_ORDER_BY: "distinct (DISTINCT_ORDER_BY c vs)"
  by (simp add: DISTINCT_ORDER_BY_def distinct_sort_by)

lemma sorted_DISTINCT_ORDER_BY: "sorted_wrt (order_le c) (DISTINCT_ORDER_BY c vs)"
  unfolding DISTINCT_ORDER_BY_def
  by (rule sorted_sort_by) (rule order_le_total, erule order_le_trans)

lemma map_Some_the: "None \<notin> set xs \<Longrightarrow> map Some (map the xs) = xs"
  by (induction xs) auto

lemma sorted_wrt_distinct_strict:
  "sorted_wrt P xs \<Longrightarrow> distinct xs \<Longrightarrow> sorted_wrt (\<lambda>a b. P a b \<and> a \<noteq> b) xs"
  by (induction xs) auto

lemma DISTINCT_ORDER_BY_texts:
  assumes "None \<notin> set vs"
  shows "\<exists>ss. DISTINCT_ORDER_BY c vs = map Some ss \<and> sorted_wrt (collate_less c) ss \<and>
    distinct ss \<and> set ss = {s. Some s \<in> set vs}"
proof -
  define ss where "ss = map the (DISTINCT_ORDER_BY c vs)"
  have nn: "None \<notin> set (DISTINCT_ORDER_BY c vs)"
    using assms by (simp add: set_DISTINCT_ORDER_BY)
  have eq: "DISTINCT_ORDER_BY c vs = map Some ss"
    unfolding ss_def using map_Some_the[OF nn] by simp
  have "sorted_wrt (order_le c) (map Some ss)"
    using sorted_DISTINCT_ORDER_BY[of c vs] by (simp add: eq)
  then have s: "sorted_wrt (collate c) ss"
    by (simp add: sorted_wrt_map order_le_def)
  have "distinct (map Some ss)"
    using distinct_DISTINCT_ORDER_BY[of c vs] by (simp add: eq)
  then have d: "distinct ss" by (simp add: distinct_map)
  from sorted_wrt_distinct_strict[OF s d] have st: "sorted_wrt (collate_less c) ss"
    by (simp add: collate_less_def[abs_def])
  have "set (map Some ss) = set vs"
    using set_DISTINCT_ORDER_BY[of c vs] by (simp add: eq)
  then have "set ss = {s. Some s \<in> set vs}" by auto
  with eq st d show ?thesis by blast
qed

subsection \<open>Decimal text\<close>

lemma digits_value_nat_text: "digits_value (nat_text n) = n"
proof (induction n rule: nat_text.induct)
  case (1 n)
  show ?case
  proof (cases "n < 10")
    case True
    then show ?thesis
      by (simp add: nat_text.simps[of n] digits_value_def digit_char_def)
  next
    case False
    with 1 have ih: "digits_value (nat_text (n div 10)) = n div 10" by simp
    have "n mod 10 < 10" by simp
    then have "(48 + n mod 10) mod 256 = 48 + n mod 10" by simp
    then have "digits_value (nat_text n) = 10 * digits_value (nat_text (n div 10)) + n mod 10"
      using False by (simp add: nat_text.simps[of n] digits_value_def digit_char_def)
    with ih show ?thesis by simp
  qed
qed

lemma inj_nat_text: "inj nat_text"
  by (metis digits_value_nat_text injI)

text \<open>
  Decimal texts of the same length are ordered as the numbers are; in particular the
  texts of the years 1000 to 9999 are.
\<close>

lemma snoc_less_snoc:
  fixes x y :: "'a::linorder"
  assumes "length xs = length ys"
  shows "xs @ [x] < ys @ [y] \<longleftrightarrow> xs < ys \<or> (xs = ys \<and> x < y)"
  using assms by (induction xs ys rule: list_induct2) auto

lemma digit_char_less: "a < 10 \<Longrightarrow> b < 10 \<Longrightarrow> digit_char a < digit_char b \<longleftrightarrow> a < b"
  by (simp add: digit_char_def less_char_def)

lemma nat_text_not_Nil: "nat_text n \<noteq> []"
  by (subst nat_text.simps) simp

lemma length_nat_text_one: "length (nat_text n) = Suc 0 \<longleftrightarrow> n < 10"
  by (subst nat_text.simps) (simp add: nat_text_not_Nil)

lemma base10_less_iff:
  fixes p q r s :: nat
  assumes "q < 10" "s < 10"
  shows "(p < r \<or> (p = r \<and> q < s)) \<longleftrightarrow> 10 * p + q < 10 * r + s"
  using assms by linarith

lemma div_mod_less_iff:
  "(a div 10 < b div 10 \<or> (a div 10 = b div 10 \<and> a mod 10 < b mod 10)) \<longleftrightarrow> a < (b::nat)"
proof -
  have "(a div 10 < b div 10 \<or> (a div 10 = b div 10 \<and> a mod 10 < b mod 10)) \<longleftrightarrow>
    10 * (a div 10) + a mod 10 < 10 * (b div 10) + b mod 10"
    by (rule base10_less_iff) simp_all
  then show ?thesis by simp
qed

lemma nat_text_less_same_length:
  "length (nat_text a) = length (nat_text b) \<Longrightarrow> nat_text a < nat_text b \<longleftrightarrow> a < b"
proof (induction a arbitrary: b rule: nat_text.induct)
  case (1 a)
  show ?case
  proof (cases "a < 10")
    case True
    then have "length (nat_text a) = Suc 0" by (simp add: length_nat_text_one)
    with "1.prems" have b: "b < 10" by (simp add: length_nat_text_one[symmetric])
    from True b show ?thesis
      by (simp add: nat_text.simps[of a] nat_text.simps[of b] digit_char_less)
  next
    case False
    then have "length (nat_text a) \<noteq> Suc 0" by (simp add: length_nat_text_one)
    with "1.prems" have b: "\<not> b < 10" by (simp add: length_nat_text_one[symmetric])
    from False b "1.prems" have l: "length (nat_text (a div 10)) = length (nat_text (b div 10))"
      by (simp add: nat_text.simps[of a] nat_text.simps[of b])
    from "1.IH"[OF False l] have ih: "nat_text (a div 10) < nat_text (b div 10) \<longleftrightarrow> a div 10 < b div 10" .
    have eq: "nat_text (a div 10) = nat_text (b div 10) \<longleftrightarrow> a div 10 = b div 10"
      using inj_nat_text by (auto dest: injD)
    have "nat_text a < nat_text b \<longleftrightarrow>
      a div 10 < b div 10 \<or> (a div 10 = b div 10 \<and> a mod 10 < b mod 10)"
      using False b by (simp add: nat_text.simps[of a] nat_text.simps[of b] snoc_less_snoc[OF l] ih eq
          digit_char_less)
    also have "\<dots> \<longleftrightarrow> a < b"
      by (rule div_mod_less_iff)
    finally show ?thesis .
  qed
qed


lemma length_nat_text_four: "1000 \<le> n \<Longrightarrow> n \<le> 9999 \<Longrightarrow> length (nat_text n) = 4"
  by (simp add: nat_text.simps[of n] nat_text.simps[of "n div 10"] nat_text.simps[of "n div 10 div 10"]
      nat_text.simps[of "n div 10 div 10 div 10"] div_less_iff_less_mult less_eq_div_iff_mult_less_eq)

lemma year_text_order:
  assumes "1000 \<le> a" "a \<le> 9999" "1000 \<le> b" "b \<le> 9999"
  shows "nat_text a < nat_text b \<longleftrightarrow> a < b"
  by (rule nat_text_less_same_length) (simp add: length_nat_text_four assms)

lemma minus_not_in_nat_text: "CHR ''-'' \<notin> set (nat_text n)"
proof (induction n rule: nat_text.induct)
  case (1 n)
  have d: "digit_char k \<noteq> CHR ''-''" if "k < 10" for k
  proof
    assume "digit_char k = CHR ''-''"
    then have "(of_char (digit_char k) :: nat) = of_char CHR ''-''" by simp
    with that show False by (simp add: digit_char_def)
  qed
  show ?case
  proof (cases "n < 10")
    case True
    then show ?thesis using d[of n] by (auto simp: nat_text.simps[of n])
  next
    case False
    with 1 have "CHR ''-'' \<notin> set (nat_text (n div 10))" by simp
    with False show ?thesis using d[of "n mod 10"] by (auto simp: nat_text.simps[of n])
  qed
qed

lemma year_value_nat_text: "year_value (nat_text n) = int n"
proof (cases "nat_text n")
  case Nil
  then show ?thesis by (simp add: nat_text_not_Nil)
next
  case (Cons c cs)
  then have "c \<in> set (nat_text n)" by simp
  then have "c \<noteq> CHR ''-''" using minus_not_in_nat_text[of n] by auto
  then show ?thesis
    using Cons digits_value_nat_text[of n] by (simp add: year_value_def)
qed

lemma year_value_int_text: "year_value (int_text i) = i"
proof (cases "i < 0")
  case True
  then show ?thesis by (simp add: int_text_def year_value_def digits_value_nat_text)
next
  case False
  then show ?thesis by (simp add: int_text_def year_value_nat_text)
qed

lemma inj_int_text: "inj int_text"
  by (metis year_value_int_text injI)

lemma four_digit_year_text:
  assumes "1000 \<le> a" "a \<le> 9999" "1000 \<le> b" "b \<le> 9999"
  shows "int_text a < int_text b \<longleftrightarrow> a < b"
proof -
  from assms have "nat_text (nat a) < nat_text (nat b) \<longleftrightarrow> nat a < nat b"
    by (intro year_text_order) auto
  with assms show ?thesis by (simp add: int_text_def)
qed

subsection \<open>The groups of the chart query\<close>

lemma set_WHERE_chart: "set (WHERE chart_where regs) = {g \<in> set regs. qualifying g}"
  by (auto simp: WHERE_def chart_where_iff)

lemma chart_group_key:
  "(state (chart_group up gs k), brand (chart_group up gs k), month (chart_group up gs k)) = k"
  by (simp add: chart_group_def)

lemma inj_chart_group: "inj (chart_group up gs)"
proof (rule injI)
  fix a b
  assume "chart_group up gs a = chart_group up gs b"
  then have "(state (chart_group up gs a), brand (chart_group up gs a), month (chart_group up gs a)) =
    (state (chart_group up gs b), brand (chart_group up gs b), month (chart_group up gs b))"
    by simp
  then show "a = b" by (simp only: chart_group_key)
qed

lemma filter_WHERE_chart:
  "filter P (WHERE chart_where regs) = filter (\<lambda>g. qualifying g \<and> P g) regs"
  by (simp add: WHERE_def chart_where_iff)

lemma in_chart_groups_iff:
  "r \<in> set (chart_groups up regs) \<longleftrightarrow>
     (\<exists>g\<in>set regs. qualifying g \<and> r = chart_group up (WHERE chart_where regs) (chart_key up g))"
  by (auto simp: chart_groups_def Let_def set_WHERE_chart)

lemma distinct_chart_groups: "distinct (chart_groups up regs)"
  by (simp add: chart_groups_def Let_def distinct_map inj_on_subset[OF inj_chart_group])

lemma chart_groups_count:
  assumes "r \<in> set (chart_groups up regs)"
  shows "registrations r =
    bigint_value (length (filter (\<lambda>g. qualifying g \<and> chart_key up g = (state r, brand r, month r)) regs))"
proof -
  from assms obtain g where "r = chart_group up (WHERE chart_where regs) (chart_key up g)"
    by (auto simp: in_chart_groups_iff)
  then show ?thesis
    by (simp add: chart_group_def filter_WHERE_chart)
qed

lemma chart_groups_positive:
  assumes "r \<in> set (chart_groups up regs)"
  shows "\<exists>n. registrations r = bigint_value n \<and> 1 \<le> n"
proof -
  from assms obtain g where g: "g \<in> set regs" "qualifying g"
    and r: "r = chart_group up (WHERE chart_where regs) (chart_key up g)"
    by (auto simp: in_chart_groups_iff)
  from g have "g \<in> set (filter (\<lambda>h. chart_key up h = chart_key up g) (WHERE chart_where regs))"
    by (simp add: set_WHERE_chart)
  then have "0 < length (filter (\<lambda>h. chart_key up h = chart_key up g) (WHERE chart_where regs))"
    by (rule length_pos_if_in_set)
  then have "1 \<le> length (filter (\<lambda>h. chart_key up h = chart_key up g) (WHERE chart_where regs))"
    by (simp add: Suc_le_eq)
  moreover have "registrations r =
      bigint_value (length (filter (\<lambda>h. chart_key up h = chart_key up g) (WHERE chart_where regs)))"
    by (simp add: r chart_group_def)
  ultimately show ?thesis by blast
qed

lemma chartQuery_set: "chartQuery st rows \<Longrightarrow> set rows = set (chart_groups (lc_upper st) (ev_registrations st))"
  using mset_eq_setD[of rows "chart_groups (lc_upper st) (ev_registrations st)"] by (simp add: chartQuery_def)

lemma chart_groups_ev_fuel:
  "chart_groups up (filter (\<lambda>g. ev_fuel (fuel g)) regs) = chart_groups up regs"
proof -
  have "filter (\<lambda>g. ev_fuel (fuel g) \<and> qualifying g) regs = filter qualifying regs"
    by (rule filter_cong) (auto simp: qualifying_def)
  then have "WHERE chart_where (filter (\<lambda>g. ev_fuel (fuel g)) regs) = WHERE chart_where regs"
    by (simp add: WHERE_def chart_where_iff)
  then show ?thesis by (simp add: chart_groups_def)
qed

text \<open>For a year of at most four digits the month text has the shape \<open>YYYY-MM\<close>.\<close>

lemma length_zero_pad: "length (zero_pad w s) = max w (length s)"
  by (simp add: zero_pad_def)

lemma length_nat_text_year: "n \<le> 9999 \<Longrightarrow> length (nat_text n) \<le> 4"
  by (simp add: nat_text.simps[of n] nat_text.simps[of "n div 10"] nat_text.simps[of "n div 10 div 10"]
      nat_text.simps[of "n div 10 div 10 div 10"] div_less_iff_less_mult less_eq_div_iff_mult_less_eq)

lemma length_nat_text_month: "n \<le> 99 \<Longrightarrow> length (nat_text n) \<le> 2"
  by (simp add: nat_text.simps[of n] nat_text.simps[of "n div 10"] div_less_iff_less_mult)

lemma TO_CHAR_YYYY_MM_shape:
  assumes "\<bar>y\<bar> \<le> 9999" "m \<le> 99"
  shows "\<exists>t. TO_CHAR_YYYY_MM (Some (Date y m d)) = Some t \<and> length t = 7 \<and> t ! 4 = CHR ''-''"
proof -
  from assms(1) have "nat \<bar>y\<bar> \<le> 9999" by simp
  then have y: "length (zero_pad 4 (nat_text (nat \<bar>y\<bar>))) = 4"
    using length_nat_text_year[of "nat \<bar>y\<bar>"] by (simp add: length_zero_pad)
  have m: "length (zero_pad 2 (nat_text m)) = 2"
    using length_nat_text_month[OF assms(2)] by (simp add: length_zero_pad)
  show ?thesis
    by (simp add: TO_CHAR_YYYY_MM_def y m nth_append)
qed

section \<open>Facts about the handler\<close>

text \<open>The two outcomes of the handler, and what a successful response holds.\<close>

lemma handler_failure:
  assumes "fulfilled (chartResult qs) = None \<or> fulfilled (brandResult qs) = None \<or>
     fulfilled (stateResult qs) = None \<or> fulfilled (yearResult qs) = None \<or>
     fulfilled (stationResult qs) = None"
  shows "api_data_handler fresh message req qs = \<lparr>status = 500, body = Text message\<rparr>"
  using assms by (auto simp: api_data_handler_def split: option.splits)

lemma handler_success:
  assumes "fulfilled (chartResult qs) = Some c" "fulfilled (brandResult qs) = Some b"
    "fulfilled (stateResult qs) = Some s" "fulfilled (yearResult qs) = Some y"
    "fulfilled (stationResult qs) = Some t"
  shows "api_data_handler fresh message req qs =
         res_json fresh req
           \<lparr>chartData = c, stationData = t,
            filters = \<lparr>brands = map brand_col b, states = map state_col s, years = map year_col y\<rparr>\<rparr>"
  using assms by (simp add: api_data_handler_def)

lemma res_json_Json: "body (res_json fresh req env) = Json e \<longleftrightarrow> \<not> fresh req env \<and> e = env"
  by (auto simp: res_json_def)

lemma res_json_200: "status (res_json fresh req env) = 200 \<longleftrightarrow> \<not> fresh req env"
  by (simp add: res_json_def)

lemma res_json_not_fresh: "\<not> fresh req env \<Longrightarrow> res_json fresh req env = \<lparr>status = 200, body = Json env\<rparr>"
  by (simp add: res_json_def)

lemma fulfilled_Some_iff: "fulfilled p = Some rows \<longleftrightarrow> p = Resolved rows"
  by (cases p) auto

lemma settles_fulfilled: "settles answer p \<Longrightarrow> fulfilled p = Some rows \<Longrightarrow> answer rows"
  by (simp add: fulfilled_Some_iff settles_def)

lemma all_fulfilled:
  assumes "\<not> (fulfilled (chartResult qs) = None \<or> fulfilled (brandResult qs) = None \<or>
     fulfilled (stateResult qs) = None \<or> fulfilled (yearResult qs) = None \<or>
     fulfilled (stationResult qs) = None)"
  obtains c b s y t where "fulfilled (chartResult qs) = Some c"
    "fulfilled (brandResult qs) = Some b" "fulfilled (stateResult qs) = Some s"
    "fulfilled (yearResult qs) = Some y" "fulfilled (stationResult qs) = Some t"
proof -
  from assms obtain c where f1: "fulfilled (chartResult qs) = Some c" by auto
  from assms obtain b where f2: "fulfilled (brandResult qs) = Some b" by auto
  from assms obtain s where f3: "fulfilled (stateResult qs) = Some s" by auto
  from assms obtain y where f4: "fulfilled (yearResult qs) = Some y" by auto
  from assms obtain t where f5: "fulfilled (stationResult qs) = Some t" by auto
  from f1 f2 f3 f4 f5 that show thesis by blast
qed

lemma success_envelope:
  assumes "pool_query st qs" and "body (api_data_handler fresh message req qs) = Json env"
  shows "chartQuery st (chartData env)" "stationQuery st (stationData env)"
    "brands (filters env) = map brand_col (brandQuery st)"
    "states (filters env) = map state_col (stateQuery st)"
    "years (filters env) = map year_col (yearQuery st)"
    "status (api_data_handler fresh message req qs) = 200"
proof -
  have nf: "\<not> (fulfilled (chartResult qs) = None \<or> fulfilled (brandResult qs) = None \<or>
     fulfilled (stateResult qs) = None \<or> fulfilled (yearResult qs) = None \<or>
     fulfilled (stationResult qs) = None)"
  proof
    assume "fulfilled (chartResult qs) = None \<or> fulfilled (brandResult qs) = None \<or>
     fulfilled (stateResult qs) = None \<or> fulfilled (yearResult qs) = None \<or>
     fulfilled (stationResult qs) = None"
    from handler_failure[OF this, of fresh message req]
    have "body (api_data_handler fresh message req qs) = Text message"
      by simp
    with assms(2) show False by simp
  qed
  then obtain c b s y t where f: "fulfilled (chartResult qs) = Some c"
    "fulfilled (brandResult qs) = Some b" "fulfilled (stateResult qs) = Some s"
    "fulfilled (yearResult qs) = Some y" "fulfilled (stationResult qs) = Some t"
    by (rule all_fulfilled)
  note r = handler_success[OF f, of fresh message req]
  from assms(2) have env: "env = \<lparr>chartData = c, stationData = t,
            filters = \<lparr>brands = map brand_col b, states = map state_col s, years = map year_col y\<rparr>\<rparr>"
    and nfr: "\<not> fresh req \<lparr>chartData = c, stationData = t,
            filters = \<lparr>brands = map brand_col b, states = map state_col s, years = map year_col y\<rparr>\<rparr>"
    unfolding r res_json_Json by simp_all
  from assms(1) have p: "settles (chartQuery st) (chartResult qs)"
    "settles (\<lambda>rows. rows = brandQuery st) (brandResult qs)"
    "settles (\<lambda>rows. rows = stateQuery st) (stateResult qs)"
    "settles (\<lambda>rows. rows = yearQuery st) (yearResult qs)"
    "settles (stationQuery st) (stationResult qs)"
    by (simp_all add: pool_query_def)
  show "chartQuery st (chartData env)"
    using settles_fulfilled[OF p(1) f(1)] by (simp add: env)
  show "stationQuery st (stationData env)"
    using settles_fulfilled[OF p(5) f(5)] by (simp add: env)
  show "brands (filters env) = map brand_col (brandQuery st)"
    using settles_fulfilled[OF p(2) f(2)] by (simp add: env)
  show "states (filters env) = map state_col (stateQuery st)"
    using settles_fulfilled[OF p(3) f(3)] by (simp add: env)
  show "years (filters env) = map year_col (yearQuery st)"
    using settles_fulfilled[OF p(4) f(4)] by (simp add: env)
  show "status (api_data_handler fresh message req qs) = 200"
    unfolding r using nfr by (simp add: res_json_200)
qed

lemma status_200_body:
  assumes "status (api_data_handler fresh message req qs) = 200"
  shows "\<exists>env. api_data_handler fresh message req qs = \<lparr>status = 200, body = Json env\<rparr>"
proof -
  have nf: "\<not> (fulfilled (chartResult qs) = None \<or> fulfilled (brandResult qs) = None \<or>
     fulfilled (stateResult qs) = None \<or> fulfilled (yearResult qs) = None \<or>
     fulfilled (stationResult qs) = None)"
  proof
    assume "fulfilled (chartResult qs) = None \<or> fulfilled (brandResult qs) = None \<or>
     fulfilled (stateResult qs) = None \<or> fulfilled (yearResult qs) = None \<or>
     fulfilled (stationResult qs) = None"
    from handler_failure[OF this, of fresh message req]
    have "status (api_data_handler fresh message req qs) = 500" by simp
    with assms show False by simp
  qed
  then obtain c b s y t where f: "fulfilled (chartResult qs) = Some c"
    "fulfilled (brandResult qs) = Some b" "fulfilled (stateResult qs) = Some s"
    "fulfilled (yearResult qs) = Some y" "fulfilled (stationResult qs) = Some t"
    by (rule all_fulfilled)
  note r = handler_success[OF f, of fresh message req]
  from assms have "\<not> fresh req \<lparr>chartData = c, stationData = t,
            filters = \<lparr>brands = map brand_col b, states = map state_col s, years = map year_col y\<rparr>\<rparr>"
    unfolding r by (simp add: res_json_200)
  then show ?thesis unfolding r by (simp add: res_json_not_fresh)
qed

lemma brand_col_brandQuery:
  "map brand_col (brandQuery st) =
     DISTINCT_ORDER_BY (lc_collate st)
       (map (\<lambda>g. UPPER (lc_upper st) (TRIM (reg_brand g))) (filter brand_qualifying (ev_registrations st)))"
  by (simp add: brandQuery_def comp_def WHERE_def brand_where_iff)

lemma state_col_stateQuery:
  "map state_col (stateQuery st) =
     DISTINCT_ORDER_BY (lc_collate st)
       (map (\<lambda>g. UPPER (lc_upper st) (TRIM (reg_state g))) (filter state_qualifying (ev_registrations st)))"
  by (simp add: stateQuery_def comp_def WHERE_def state_where_iff)

lemma year_col_yearQuery:
  "map year_col (yearQuery st) =
     DISTINCT_ORDER_BY (lc_collate st)
       (map (\<lambda>g. EXTRACT_YEAR_text (date_reg g)) (filter year_qualifying (ev_registrations st)))"
  by (simp add: yearQuery_def comp_def WHERE_def year_where_iff)

subsection \<open>The freshness test\<close>

lemma unconditional_not_fresh: "unconditional req \<Longrightarrow> \<not> express_fresh etag req env"
  by (simp add: unconditional_def express_fresh_def)

lemma unconditional_res_json:
  "unconditional req \<Longrightarrow> res_json (express_fresh etag) req env = \<lparr>status = 200, body = Json env\<rparr>"
  by (simp add: res_json_def unconditional_not_fresh)

lemma unconditional_examples: "unconditional example_request" "unconditional plain_request"
  by (simp_all add: unconditional_def header_def example_request_def plain_request_def)

lemma conditional_request_fresh: "express_fresh etag conditional_request env"
  by (simp add: express_fresh_def header_def conditional_request_def no_cache_def strip_def)

section \<open>The example stores, evaluated\<close>

subsection \<open>The scenario, in any locale that treats ASCII texts as the \<open>C\<close> locale does\<close>

lemma ascii_trim: "ascii s \<Longrightarrow> ascii (trim s)"
  using set_trim_subset[of s] by (auto simp: ascii_def list_all_iff)

lemma UPPER_on_ascii:
  assumes "upper_on_ascii up" "ascii_text v"
  shows "UPPER up (TRIM v) = UPPER C_upper (TRIM v)"
proof (cases v)
  case None
  then show ?thesis by (simp add: UPPER_def TRIM_def)
next
  case (Some s)
  with assms(2) have "ascii (trim s)" by (simp add: ascii_text_def ascii_trim)
  with assms(1) have "up (trim s) = C_upper (trim s)" by (simp add: upper_on_ascii_def)
  with Some show ?thesis by (simp add: UPPER_def TRIM_def)
qed

lemma chart_groups_cong:
  assumes "\<And>g. g \<in> set regs \<Longrightarrow> chart_key up g = chart_key up' g"
  shows "chart_groups up regs = chart_groups up' regs"
proof -
  let ?gs = "WHERE chart_where regs"
  have sub: "set ?gs \<subseteq> set regs" by (auto simp: WHERE_def)
  have k: "map (chart_key up) ?gs = map (chart_key up') ?gs"
    by (rule map_cong) (use sub assms in auto)
  have f: "filter (\<lambda>g. chart_key up g = k) ?gs = filter (\<lambda>g. chart_key up' g = k) ?gs" for k
    by (rule filter_cong) (use sub assms in auto)
  have "chart_group up ?gs = chart_group up' ?gs"
    by (simp add: fun_eq_iff chart_group_def f)
  then show ?thesis unfolding chart_groups_def Let_def k by simp
qed

lemma scenario_ascii:
  "list_all (\<lambda>g. ascii_text (reg_state g) \<and> ascii_text (reg_brand g)) scenario_registrations"
  by (simp add: scenario_registrations_def) code_simp

lemma scenario_UPPER:
  assumes "upper_on_ascii up" "g \<in> set scenario_registrations"
  shows "UPPER up (TRIM (reg_state g)) = UPPER C_upper (TRIM (reg_state g))"
    and "UPPER up (TRIM (reg_brand g)) = UPPER C_upper (TRIM (reg_brand g))"
  using scenario_ascii assms by (auto simp: list_all_iff intro: UPPER_on_ascii)

lemma scenario_chart_groups_C: "chart_groups C_upper scenario_registrations = [scenario_row]"
  by (simp add: scenario_registrations_def scenario_row_def) code_simp

lemma scenario_chart_groups:
  assumes "upper_on_ascii up"
  shows "chart_groups up scenario_registrations = [scenario_row]"
proof -
  have "chart_groups up scenario_registrations = chart_groups C_upper scenario_registrations"
    by (rule chart_groups_cong) (simp add: chart_key_def scenario_UPPER[OF assms])
  then show ?thesis by (simp add: scenario_chart_groups_C)
qed

lemma scenario_brand_texts_C:
  "map (\<lambda>g. UPPER C_upper (TRIM (reg_brand g))) (WHERE brand_where scenario_registrations) =
     [Some ''TESLA'', Some ''TESLA'']"
  by (simp add: scenario_registrations_def) code_simp

lemma scenario_state_texts_C:
  "map (\<lambda>g. UPPER C_upper (TRIM (reg_state g))) (WHERE state_where scenario_registrations) =
     [Some ''CA'', Some ''CA'']"
  by (simp add: scenario_registrations_def) code_simp

lemma scenario_year_texts:
  "map (\<lambda>g. EXTRACT_YEAR_text (date_reg g)) (WHERE year_where scenario_registrations) =
     [Some ''2024'', Some ''2024'']"
  by (simp add: scenario_registrations_def) code_simp

lemma DISTINCT_ORDER_BY_twice: "DISTINCT_ORDER_BY c [v, v] = [v]"
  by (simp add: DISTINCT_ORDER_BY_def sort_by_def)

lemma scenario_brandQuery:
  assumes "upper_on_ascii up"
  shows "brandQuery (scenario up c sts) = [Brand_row (Some ''TESLA'')]"
proof -
  have "map (\<lambda>g. UPPER up (TRIM (reg_brand g))) (WHERE brand_where scenario_registrations) =
      map (\<lambda>g. UPPER C_upper (TRIM (reg_brand g))) (WHERE brand_where scenario_registrations)"
    by (rule map_cong) (auto simp: WHERE_def scenario_UPPER[OF assms])
  then show ?thesis
    by (simp add: brandQuery_def scenario_def scenario_brand_texts_C DISTINCT_ORDER_BY_twice)
qed

lemma scenario_stateQuery:
  assumes "upper_on_ascii up"
  shows "stateQuery (scenario up c sts) = [State_row (Some ''CA'')]"
proof -
  have "map (\<lambda>g. UPPER up (TRIM (reg_state g))) (WHERE state_where scenario_registrations) =
      map (\<lambda>g. UPPER C_upper (TRIM (reg_state g))) (WHERE state_where scenario_registrations)"
    by (rule map_cong) (auto simp: WHERE_def scenario_UPPER[OF assms])
  then show ?thesis
    by (simp add: stateQuery_def scenario_def scenario_state_texts_C DISTINCT_ORDER_BY_twice)
qed

lemma scenario_yearQuery: "yearQuery (scenario up c sts) = [Year_row (Some ''2024'')]"
  by (simp add: yearQuery_def scenario_def scenario_year_texts DISTINCT_ORDER_BY_twice)

lemma scenario_fields:
  "ev_registrations (scenario up c sts) = scenario_registrations"
  "charging_stations (scenario up c sts) = sts"
  "lc_upper (scenario up c sts) = up"
  "lc_collate (scenario up c sts) = c"
  by (simp_all add: scenario_def)

lemma pool_query_scenario:
  assumes "upper_on_ascii up" "mset t = mset sts"
  shows "pool_query (scenario up c sts) (scenario_results t)"
  using assms(2)
  by (simp add: pool_query_def settles_def scenario_results_def chartQuery_def stationQuery_def
      scenario_fields scenario_chart_groups[OF assms(1)] scenario_brandQuery[OF assms(1)]
      scenario_stateQuery[OF assms(1)] scenario_yearQuery)

lemma scenario_results_response:
  "\<not> fresh req (scenario_envelope sts) \<Longrightarrow>
   api_data_handler fresh message req (scenario_results sts) =
     \<lparr>status = 200, body = Json (scenario_envelope sts)\<rparr>"
  by (simp add: api_data_handler_def scenario_results_def scenario_envelope_def res_json_def)

lemma scenario_body:
  "unconditional req \<Longrightarrow>
   body (api_data_handler (express_fresh etag) message req (scenario_results sts)) =
     Json (scenario_envelope sts)"
  by (simp add: scenario_results_response unconditional_not_fresh)

lemma scenario_row_in_envelope: "scenario_row \<in> set (chartData (scenario_envelope sts))"
  by (simp add: scenario_envelope_def)

subsection \<open>The stores in the \<open>C\<close> locale\<close>

lemma same_month_chart_groups:
  "chart_groups (lc_upper same_month_store) (ev_registrations same_month_store) = [CA_row, TX_row]"
  by (simp add: same_month_store_def CA_row_def TX_row_def) code_simp

lemma same_month_brandQuery: "brandQuery same_month_store = [Brand_row (Some ''TESLA'')]"
  by (simp add: same_month_store_def brandQuery_def) code_simp

lemma same_month_stateQuery:
  "stateQuery same_month_store = [State_row (Some ''CA''), State_row (Some ''TX'')]"
  by (simp add: same_month_store_def stateQuery_def) code_simp

lemma same_month_yearQuery: "yearQuery same_month_store = [Year_row (Some ''2024'')]"
  by (simp add: same_month_store_def yearQuery_def) code_simp

lemma same_month_stations: "charging_stations same_month_store = []"
  by (simp add: same_month_store_def)

lemma order_le_refl: "order_le c a a"
  by (simp add: order_le_def collate_refl split: option.splits)

lemma same_month_months: "month CA_row = Some ''2024-03''" "month TX_row = Some ''2024-03''"
  by (simp_all add: CA_row_def TX_row_def)

lemma same_month_sorted:
  "sorted_wrt (\<lambda>r s. order_le (lc_collate same_month_store) (month r) (month s)) [CA_row, TX_row]"
  "sorted_wrt (\<lambda>r s. order_le (lc_collate same_month_store) (month r) (month s)) [TX_row, CA_row]"
  by (simp_all add: same_month_months order_le_refl)

lemma pool_query_same_month:
  "pool_query same_month_store (same_month_results [CA_row, TX_row])"
  "pool_query same_month_store (same_month_results [TX_row, CA_row])"
  by (simp_all add: pool_query_def settles_def same_month_results_def chartQuery_def stationQuery_def
      same_month_chart_groups same_month_brandQuery same_month_stateQuery same_month_yearQuery
      same_month_stations same_month_months order_le_refl)

lemma same_month_results_response:
  "\<not> fresh req (same_month_envelope rows) \<Longrightarrow>
   api_data_handler fresh message req (same_month_results rows) =
     \<lparr>status = 200, body = Json (same_month_envelope rows)\<rparr>"
  by (simp add: api_data_handler_def same_month_results_def same_month_envelope_def res_json_def)

lemma same_month_body:
  "unconditional req \<Longrightarrow>
   body (api_data_handler (express_fresh etag) message req (same_month_results rows)) =
     Json (same_month_envelope rows)"
  by (simp add: same_month_results_response unconditional_not_fresh)

lemma brand_only_brandQuery: "brandQuery brand_only_store = [Brand_row (Some ''TESLA'')]"
  by (simp add: brand_only_store_def brandQuery_def) code_simp

lemma brand_only_chart_groups:
  "chart_groups (lc_upper brand_only_store) (ev_registrations brand_only_store) = []"
  by (simp add: brand_only_store_def) code_simp

lemma state_only_stateQuery: "stateQuery state_only_store = [State_row (Some ''CA'')]"
  by (simp add: state_only_store_def stateQuery_def) code_simp

lemma state_only_chart_groups:
  "chart_groups (lc_upper state_only_store) (ev_registrations state_only_store) = []"
  by (simp add: state_only_store_def) code_simp

lemma brand_only_WHERE:
  "WHERE brand_where (ev_registrations brand_only_store) = ev_registrations brand_only_store"
  "filter qualifying (ev_registrations brand_only_store) = []"
  by (simp_all add: brand_only_store_def) code_simp+

lemma state_only_WHERE:
  "WHERE state_where (ev_registrations state_only_store) = ev_registrations state_only_store"
  "filter qualifying (ev_registrations state_only_store) = []"
  by (simp_all add: state_only_store_def) code_simp+

section \<open>Further facts about responses\<close>

lemma non_blank_UPPER_TRIM: "keeps_blank up \<Longrightarrow> non_blank v \<Longrightarrow> non_blank (UPPER up (TRIM v))"
  by (cases v) (simp_all add: non_blank_def UPPER_def TRIM_def keeps_blank_def trim_idem)

lemma non_blank_not_None: "non_blank v \<Longrightarrow> UPPER up (TRIM v) \<noteq> None"
  by (cases v) (simp_all add: non_blank_def UPPER_def TRIM_def)

lemma success_chart_rows:
  assumes "pool_query st qs" and "body (api_data_handler fresh message req qs) = Json env"
  shows "set (chartData env) = set (chart_groups (lc_upper st) (ev_registrations st))"
  using success_envelope(1)[OF assms] by (rule chartQuery_set)

lemma success_brands:
  assumes "pool_query st qs" and "body (api_data_handler fresh message req qs) = Json env"
  shows "brands (filters env) =
     DISTINCT_ORDER_BY (lc_collate st)
       (map (\<lambda>g. UPPER (lc_upper st) (TRIM (reg_brand g))) (filter brand_qualifying (ev_registrations st)))"
  using success_envelope(3)[OF assms] by (simp only: brand_col_brandQuery)

lemma success_states:
  assumes "pool_query st qs" and "body (api_data_handler fresh message req qs) = Json env"
  shows "states (filters env) =
     DISTINCT_ORDER_BY (lc_collate st)
       (map (\<lambda>g. UPPER (lc_upper st) (TRIM (reg_state g))) (filter state_qualifying (ev_registrations st)))"
  using success_envelope(4)[OF assms] by (simp only: state_col_stateQuery)

lemma success_years:
  assumes "pool_query st qs" and "body (api_data_handler fresh message req qs) = Json env"
  shows "years (filters env) =
     DISTINCT_ORDER_BY (lc_collate st)
       (map (\<lambda>g. EXTRACT_YEAR_text (date_reg g)) (filter year_qualifying (ev_registrations st)))"
  using success_envelope(5)[OF assms] by (simp only: year_col_yearQuery)

lemma brand_texts_not_None:
  "None \<notin> set (map (\<lambda>g. UPPER up (TRIM (reg_brand g))) (filter brand_qualifying regs))"
  using non_blank_not_None[of _ up] by (fastforce simp: brand_qualifying_def)

lemma state_texts_not_None:
  "None \<notin> set (map (\<lambda>g. UPPER up (TRIM (reg_state g))) (filter state_qualifying regs))"
  using non_blank_not_None[of _ up] by (fastforce simp: state_qualifying_def)

lemma year_texts_not_None:
  "None \<notin> set (map (\<lambda>g. EXTRACT_YEAR_text (date_reg g)) (filter year_qualifying regs))"
  by (auto simp: year_qualifying_def EXTRACT_YEAR_text_def split: date.splits)

lemma mset_eq_single: "mset xs = mset [x] \<Longrightarrow> xs = [x]"
  by (cases xs) (auto simp: add_mset_eq_single)

lemma WHERE_brand: "WHERE brand_where regs = filter brand_qualifying regs"
  by (simp add: WHERE_def brand_where_iff)

lemma WHERE_state: "WHERE state_where regs = filter state_qualifying regs"
  by (simp add: WHERE_def state_where_iff)

lemma WHERE_chart: "WHERE chart_where regs = filter qualifying regs"
  by (simp add: WHERE_def chart_where_iff)

lemma qualifying_both:
  "set (filter qualifying regs) \<subseteq>
     set (filter brand_qualifying regs) \<inter> set (filter state_qualifying regs)"
  by (auto simp: qualifying_def brand_qualifying_def state_qualifying_def)

lemma chart_groups_brand_state:
  assumes "r \<in> set (chart_groups up regs)"
  shows "brand r \<in> set (DISTINCT_ORDER_BY c (map (\<lambda>g. UPPER up (TRIM (reg_brand g))) (filter brand_qualifying regs)))"
    and "state r \<in> set (DISTINCT_ORDER_BY c (map (\<lambda>g. UPPER up (TRIM (reg_state g))) (filter state_qualifying regs)))"
proof -
  from assms obtain g where g: "g \<in> set regs" "qualifying g"
    and r: "r = chart_group up (WHERE chart_where regs) (chart_key up g)"
    unfolding in_chart_groups_iff by blast
  have b: "brand r = UPPER up (TRIM (reg_brand g))" and s: "state r = UPPER up (TRIM (reg_state g))"
    by (simp_all add: r chart_group_def chart_key_def)
  from g have "g \<in> set (filter brand_qualifying regs)" "g \<in> set (filter state_qualifying regs)"
    using qualifying_both[of regs] by auto
  then show "brand r \<in> set (DISTINCT_ORDER_BY c (map (\<lambda>g. UPPER up (TRIM (reg_brand g))) (filter brand_qualifying regs)))"
    and "state r \<in> set (DISTINCT_ORDER_BY c (map (\<lambda>g. UPPER up (TRIM (reg_state g))) (filter state_qualifying regs)))"
    unfolding b s set_DISTINCT_ORDER_BY by (simp_all del: set_filter)
qed

lemma chartQuery_months:
  assumes "chartQuery st xs" "chartQuery st ys"
  shows "mset xs = mset ys" "map month xs = map month ys"
    "distinct (map month xs) \<Longrightarrow> xs = ys"
proof -
  let ?le = "order_le (lc_collate st)"
  from assms show m: "mset xs = mset ys" by (simp add: chartQuery_def)
  then have mm: "mset (map month xs) = mset (map month ys)" by simp
  from assms have "sorted_wrt ?le (map month xs)" "sorted_wrt ?le (map month ys)"
    by (simp_all add: chartQuery_def sorted_wrt_map)
  with mm show e: "map month xs = map month ys"
    by (intro sorted_wrt_same_mset[of ?le]) (auto intro: order_le_antisym)
  assume d: "distinct (map month xs)"
  from m have se: "set xs = set ys" by (rule mset_eq_setD)
  from d have "inj_on month (set xs)" by (simp add: distinct_map)
  then have "inj_on month (set xs \<union> set ys)" by (simp add: se)
  with e show "xs = ys" by (simp add: inj_on_map_eq_map)
qed

subsection \<open>The stores with an infinite date and with two years\<close>

lemma infinite_date_chart_groups:
  "chart_groups (lc_upper infinite_date_store) (ev_registrations infinite_date_store) = [infinite_date_row]"
  by (simp add: infinite_date_store_def infinite_date_row_def) code_simp

lemma infinite_date_brandQuery: "brandQuery infinite_date_store = [Brand_row (Some ''TESLA'')]"
  by (simp add: infinite_date_store_def brandQuery_def) code_simp

lemma infinite_date_stateQuery: "stateQuery infinite_date_store = [State_row (Some ''CA'')]"
  by (simp add: infinite_date_store_def stateQuery_def) code_simp

lemma infinite_date_yearQuery: "yearQuery infinite_date_store = [Year_row (Some ''Infinity'')]"
  by (simp add: infinite_date_store_def yearQuery_def) code_simp

lemma infinite_date_qualifying: "list_all qualifying (ev_registrations infinite_date_store)"
  by (simp add: infinite_date_store_def) code_simp

lemma pool_query_infinite_date: "pool_query infinite_date_store infinite_date_results"
  by (simp add: pool_query_def settles_def infinite_date_results_def chartQuery_def stationQuery_def
      infinite_date_chart_groups infinite_date_brandQuery infinite_date_stateQuery
      infinite_date_yearQuery)
    (simp add: infinite_date_store_def)

lemma infinite_date_response:
  "unconditional req \<Longrightarrow>
   api_data_handler (express_fresh etag) message req infinite_date_results =
     \<lparr>status = 200, body = Json infinite_date_envelope\<rparr>"
  by (simp add: api_data_handler_def infinite_date_results_def infinite_date_envelope_def
      unconditional_res_json)

lemma two_years_chartQuery: "chartQuery two_years_store (chartData two_years_envelope)"
  by (simp add: two_years_store_def two_years_envelope_def chartQuery_def) code_simp

lemma two_years_brandQuery: "brandQuery two_years_store = [Brand_row (Some ''TESLA'')]"
  by (simp add: two_years_store_def brandQuery_def) code_simp

lemma two_years_stateQuery: "stateQuery two_years_store = [State_row (Some ''CA'')]"
  by (simp add: two_years_store_def stateQuery_def) code_simp

lemma two_years_yearQuery:
  "yearQuery two_years_store = [Year_row (Some ''2024''), Year_row (Some ''999'')]"
  by (simp add: two_years_store_def yearQuery_def) code_simp

lemma two_years_results_fields:
  "chartResult two_years_results = Resolved (chartData two_years_envelope)"
  "brandResult two_years_results = Resolved [Brand_row (Some ''TESLA'')]"
  "stateResult two_years_results = Resolved [State_row (Some ''CA'')]"
  "yearResult two_years_results = Resolved [Year_row (Some ''2024''), Year_row (Some ''999'')]"
  "stationResult two_years_results = Resolved []"
  by (simp_all add: two_years_results_def two_years_envelope_def)

lemma two_years_stations: "charging_stations two_years_store = []"
  by (simp add: two_years_store_def)

lemma pool_query_two_years: "pool_query two_years_store two_years_results"
  unfolding pool_query_def two_years_results_fields
  by (simp add: settles_def two_years_chartQuery stationQuery_def two_years_stations
      two_years_brandQuery two_years_stateQuery two_years_yearQuery)

lemma two_years_response:
  "unconditional req \<Longrightarrow>
   api_data_handler (express_fresh etag) message req two_years_results =
     \<lparr>status = 200, body = Json two_years_envelope\<rparr>"
  by (simp add: api_data_handler_def two_years_results_def two_years_envelope_def
      unconditional_res_json)

lemma two_years_not_ascending:
  "year_value ''2024'' = 2024" "year_value ''999'' = 999"
  by code_simp+

lemma same_month_calendar: "calendar_dates same_month_store" "four_digit_years same_month_store"
  "lc_collate same_month_store = C_collation"
  by (simp_all add: same_month_store_def calendar_dates_def four_digit_years_def
      calendar_date_def four_digit_year_def)

text \<open>
  Where a chart row comes from: a qualifying registration gives it its state, its brand
  and its month. The state and the brand are not blank when \<open>UPPER\<close> keeps texts that
  are not blank so; the month is not NULL when the date of the registration is a calendar
  date.
\<close>

lemma chart_row_source:
  assumes "pool_query st qs" and "body (api_data_handler fresh message req qs) = Json env"
    and "r \<in> set (chartData env)"
  shows "\<exists>g. g \<in> set (ev_registrations st) \<and> qualifying g \<and>
      state r = UPPER (lc_upper st) (TRIM (reg_state g)) \<and>
      brand r = UPPER (lc_upper st) (TRIM (reg_brand g)) \<and>
      month r = TO_CHAR_YYYY_MM (date_reg g) \<and>
      (keeps_blank (lc_upper st) \<longrightarrow> non_blank (state r) \<and> non_blank (brand r)) \<and>
      (calendar_date (date_reg g) \<longrightarrow> month r \<noteq> None)"
proof -
  from assms have "r \<in> set (chart_groups (lc_upper st) (ev_registrations st))"
    by (simp add: success_chart_rows)
  then obtain g where g: "g \<in> set (ev_registrations st)" "qualifying g"
    and r: "r = chart_group (lc_upper st) (WHERE chart_where (ev_registrations st)) (chart_key (lc_upper st) g)"
    unfolding in_chart_groups_iff by blast
  have s: "state r = UPPER (lc_upper st) (TRIM (reg_state g))"
    and b: "brand r = UPPER (lc_upper st) (TRIM (reg_brand g))"
    and m: "month r = TO_CHAR_YYYY_MM (date_reg g)"
    by (simp_all add: r chart_group_def chart_key_def)
  from g(2) have n: "keeps_blank (lc_upper st) \<longrightarrow> non_blank (state r) \<and> non_blank (brand r)"
    unfolding s b by (simp add: qualifying_def non_blank_UPPER_TRIM)
  from g(2) obtain dt where "date_reg g = Some dt" by (auto simp: qualifying_def)
  then have c: "calendar_date (date_reg g) \<longrightarrow> month r \<noteq> None"
    unfolding m by (cases dt) (simp_all add: calendar_date_def TO_CHAR_YYYY_MM_def)
  from g s b m n c show ?thesis by blast
qed

section \<open>Claims\<close>

text \<open>
  The claims about successful responses are stated for \<open>api_data_handler\<close> with any
  failure text and any freshness test; \<open>api_data\<close> and \<open>api_data_part_000\<close> are its two
  instances. A run is given by how the five queries settled (\<open>pool_query\<close>); a query has
  failed when \<open>fulfilled\<close> gives \<open>None\<close> for it.
\<close>

text \<open>
  C3. If any one of the five queries fails, the response has status 500 and its body is
  the fixed text of the server (the same whichever query failed and whatever the error
  was); it is no JSON envelope, so nothing of the queries that succeeded is sent. This
  holds for both copies of the server, each with its own text.
\<close>

theorem any_failed_query_gives_500:
  assumes "fulfilled (chartResult qs) = None \<or> fulfilled (brandResult qs) = None \<or>
     fulfilled (stateResult qs) = None \<or> fulfilled (yearResult qs) = None \<or>
     fulfilled (stationResult qs) = None"
  shows "api_data fresh req qs = \<lparr>status = 500, body = Text server_js_message\<rparr> \<and>
    api_data_part_000 fresh req qs = \<lparr>status = 500, body = Text part_000_message\<rparr> \<and>
    (\<forall>env. body (api_data fresh req qs) \<noteq> Json env) \<and>
    (\<forall>env. body (api_data_part_000 fresh req qs) \<noteq> Json env)"
proof -
  have a: "api_data fresh req qs = \<lparr>status = 500, body = Text server_js_message\<rparr>"
    unfolding api_data_def using assms by (rule handler_failure)
  have b: "api_data_part_000 fresh req qs = \<lparr>status = 500, body = Text part_000_message\<rparr>"
    unfolding api_data_part_000_def using assms by (rule handler_failure)
  show ?thesis by (simp add: a b)
qed

theorem any_failed_query_gives_500_witness:
  "fulfilled (yearResult ((scenario_results example_stations)\<lparr>yearResult := Rejected ''connection refused''\<rparr>)) = None \<and>
   api_data (express_fresh example_etag) example_request
       ((scenario_results example_stations)\<lparr>yearResult := Rejected ''connection refused''\<rparr>) =
     \<lparr>status = 500, body = Text ''A critical error occurred while fetching data from the database.''\<rparr> \<and>
   api_data_part_000 (express_fresh example_etag) example_request
       ((scenario_results example_stations)\<lparr>yearResult := Rejected ''connection refused''\<rparr>) =
     \<lparr>status = 500, body = Text ''A critical error occurred while fetching data.''\<rparr>"
proof -
  have h: "fulfilled (yearResult ((scenario_results example_stations)\<lparr>yearResult := Rejected ''connection refused''\<rparr>)) = None"
    by simp
  show ?thesis
    using h any_failed_query_gives_500
      [of "(scenario_results example_stations)\<lparr>yearResult := Rejected ''connection refused''\<rparr>"
          "express_fresh example_etag" example_request]
    by (simp add: server_js_message_def part_000_message_def)
qed

text \<open>
  C10. In a successful response every chart row counts at least one registration: its
  \<open>registrations\<close> field is the decimal text of a number that is at least 1.
\<close>

theorem chart_row_count_positive:
  assumes "pool_query st qs" and "body (api_data_handler fresh message req qs) = Json env"
    and "r \<in> set (chartData env)"
  shows "\<exists>n. registrations r = JS_string (nat_text n) \<and> 1 \<le> n"
proof -
  from assms(1,2) have "chartQuery st (chartData env)" by (rule success_envelope(1))
  then have "set (chartData env) = set (chart_groups (lc_upper st) (ev_registrations st))"
    by (rule chartQuery_set)
  with assms(3) have "r \<in> set (chart_groups (lc_upper st) (ev_registrations st))" by simp
  then show ?thesis unfolding bigint_value_def[symmetric] by (rule chart_groups_positive)
qed

theorem chart_row_count_positive_witness:
  "pool_query (scenario C_upper C_collation example_stations) (scenario_results example_stations) \<and>
   body (api_data_handler (express_fresh example_etag) server_js_message example_request
          (scenario_results example_stations)) =
     Json (scenario_envelope example_stations) \<and>
   scenario_row \<in> set (chartData (scenario_envelope example_stations)) \<and>
   (\<exists>n. registrations scenario_row = JS_string (nat_text n) \<and> 1 \<le> n)"
proof -
  have p: "pool_query (scenario C_upper C_collation example_stations) (scenario_results example_stations)"
    by (rule pool_query_scenario[OF upper_on_ascii_C_upper]) simp
  have b: "body (api_data_handler (express_fresh example_etag) server_js_message example_request
          (scenario_results example_stations)) =
     Json (scenario_envelope example_stations)"
    by (rule scenario_body) (rule unconditional_examples)
  have m: "scenario_row \<in> set (chartData (scenario_envelope example_stations))"
    by (rule scenario_row_in_envelope)
  from chart_row_count_positive[OF p b m] p b m show ?thesis by blast
qed

text \<open>
  C7. Registrations whose fuel is outside \<open>electric\<close>, \<open>hybrid_petrol\<close>,
  \<open>hybrid_diesel\<close> contribute to no chart row: the count of a row is (the text of) the
  number of qualifying registrations (whose fuel is in the set) with the row's state,
  brand and month, and the chart rows of the response are an answer of the chart query on
  the store from which every registration of another fuel has been removed.
\<close>

theorem other_fuels_never_counted:
  assumes "pool_query st qs" and "body (api_data_handler fresh message req qs) = Json env"
    and "r \<in> set (chartData env)"
  shows "registrations r =
       JS_string (nat_text (length (filter (\<lambda>g. ev_fuel (fuel g) \<and> qualifying g \<and>
                 chart_key (lc_upper st) g = (state r, brand r, month r)) (ev_registrations st)))) \<and>
     chartQuery (st\<lparr>ev_registrations := filter (\<lambda>g. ev_fuel (fuel g)) (ev_registrations st)\<rparr>)
       (chartData env)"
proof -
  have q: "(\<lambda>g. ev_fuel (fuel g) \<and> qualifying g \<and> chart_key (lc_upper st) g = k) =
      (\<lambda>g. qualifying g \<and> chart_key (lc_upper st) g = k)" for k
    by (auto simp: qualifying_def fun_eq_iff)
  from assms have "r \<in> set (chart_groups (lc_upper st) (ev_registrations st))"
    by (simp add: success_chart_rows)
  then have "registrations r =
       JS_string (nat_text (length (filter (\<lambda>g. ev_fuel (fuel g) \<and> qualifying g \<and>
                 chart_key (lc_upper st) g = (state r, brand r, month r)) (ev_registrations st))))"
    unfolding q bigint_value_def[symmetric] by (rule chart_groups_count)
  moreover have "chartQuery (st\<lparr>ev_registrations := filter (\<lambda>g. ev_fuel (fuel g)) (ev_registrations st)\<rparr>)
       (chartData env)"
    using success_envelope(1)[OF assms(1,2)] by (simp add: chartQuery_def chart_groups_ev_fuel)
  ultimately show ?thesis by blast
qed

theorem other_fuels_never_counted_witness:
  "pool_query (scenario C_upper C_collation example_stations) (scenario_results example_stations) \<and>
   body (api_data_handler (express_fresh example_etag) server_js_message example_request
          (scenario_results example_stations)) =
     Json (scenario_envelope example_stations) \<and>
   scenario_row \<in> set (chartData (scenario_envelope example_stations)) \<and>
   registrations scenario_row =
       JS_string (nat_text (length (filter (\<lambda>g. ev_fuel (fuel g) \<and> qualifying g \<and>
                 chart_key (lc_upper (scenario C_upper C_collation example_stations)) g =
                   (state scenario_row, brand scenario_row, month scenario_row))
          (ev_registrations (scenario C_upper C_collation example_stations))))) \<and>
   chartQuery ((scenario C_upper C_collation example_stations)
        \<lparr>ev_registrations := filter (\<lambda>g. ev_fuel (fuel g))
           (ev_registrations (scenario C_upper C_collation example_stations))\<rparr>)
     (chartData (scenario_envelope example_stations))"
proof -
  have p: "pool_query (scenario C_upper C_collation example_stations) (scenario_results example_stations)"
    by (rule pool_query_scenario[OF upper_on_ascii_C_upper]) simp
  have b: "body (api_data_handler (express_fresh example_etag) server_js_message example_request
          (scenario_results example_stations)) =
     Json (scenario_envelope example_stations)"
    by (rule scenario_body) (rule unconditional_examples)
  have m: "scenario_row \<in> set (chartData (scenario_envelope example_stations))"
    by (rule scenario_row_in_envelope)
  from other_fuels_never_counted[OF p b m] p b m show ?thesis by blast
qed

text \<open>
  C1, as stated: the brands query and the states query select the registrations that
  satisfy the full qualifying predicate. This fails. A registration with a brand and an
  electric fuel but no state and no date is selected by the brands query, which then
  lists its brand, although the registration does not qualify and the chart query has no
  row; likewise for the states query and a registration without a brand.
\<close>

theorem filter_queries_full_predicate_counterexample:
  "WHERE brand_where (ev_registrations brand_only_store) \<noteq>
     filter qualifying (ev_registrations brand_only_store) \<and>
   brandQuery brand_only_store = [Brand_row (Some ''TESLA'')] \<and>
   chart_groups (lc_upper brand_only_store) (ev_registrations brand_only_store) = [] \<and>
   WHERE state_where (ev_registrations state_only_store) \<noteq>
     filter qualifying (ev_registrations state_only_store) \<and>
   stateQuery state_only_store = [State_row (Some ''CA'')] \<and>
   chart_groups (lc_upper state_only_store) (ev_registrations state_only_store) = []"
proof -
  have "ev_registrations brand_only_store \<noteq> []" "ev_registrations state_only_store \<noteq> []"
    by (simp_all add: brand_only_store_def state_only_store_def)
  then show ?thesis
    by (simp add: brand_only_WHERE state_only_WHERE brand_only_brandQuery brand_only_chart_groups
        state_only_stateQuery state_only_chart_groups)
qed

text \<open>
  C1, amended. The brands query selects exactly the registrations whose brand is not NULL
  and not blank after trimming and whose fuel is in the set; the states query selects
  exactly those whose state is not NULL and not blank after trimming and whose fuel is in
  the set. Neither looks at the other column or at the date. Every registration that
  satisfies the full qualifying predicate is selected by both, so in a successful response
  \<open>filters.brands\<close> and \<open>filters.states\<close> are the ordered distinct normalized brands and
  states of the registrations so selected, and the brand and the state of every chart row
  occur in them.
\<close>

theorem filter_queries_own_column_predicate:
  assumes "pool_query st qs" and "body (api_data_handler fresh message req qs) = Json env"
  shows "WHERE brand_where (ev_registrations st) = filter brand_qualifying (ev_registrations st) \<and>
    WHERE state_where (ev_registrations st) = filter state_qualifying (ev_registrations st) \<and>
    WHERE chart_where (ev_registrations st) = filter qualifying (ev_registrations st) \<and>
    set (filter qualifying (ev_registrations st)) \<subseteq>
      set (filter brand_qualifying (ev_registrations st)) \<inter>
      set (filter state_qualifying (ev_registrations st)) \<and>
    brands (filters env) =
      DISTINCT_ORDER_BY (lc_collate st) (map (\<lambda>g. UPPER (lc_upper st) (TRIM (reg_brand g)))
        (filter brand_qualifying (ev_registrations st))) \<and>
    states (filters env) =
      DISTINCT_ORDER_BY (lc_collate st) (map (\<lambda>g. UPPER (lc_upper st) (TRIM (reg_state g)))
        (filter state_qualifying (ev_registrations st))) \<and>
    set (map brand (chartData env)) \<subseteq> set (brands (filters env)) \<and>
    set (map state (chartData env)) \<subseteq> set (states (filters env))"
proof -
  note b = success_brands[OF assms] and s = success_states[OF assms]
    and c = success_chart_rows[OF assms]
  have "set (map brand (chartData env)) \<subseteq> set (brands (filters env))"
    unfolding b using chart_groups_brand_state(1)[of _ "lc_upper st" "ev_registrations st"] c by auto
  moreover have "set (map state (chartData env)) \<subseteq> set (states (filters env))"
    unfolding s using chart_groups_brand_state(2)[of _ "lc_upper st" "ev_registrations st"] c by auto
  ultimately show ?thesis
    using b s qualifying_both[of "ev_registrations st"]
    by (simp only: WHERE_brand WHERE_state WHERE_chart simp_thms)
qed

theorem filter_queries_own_column_predicate_witness:
  "pool_query same_month_store (same_month_results [CA_row, TX_row]) \<and>
   body (api_data_handler (express_fresh example_etag) server_js_message example_request
          (same_month_results [CA_row, TX_row])) =
     Json (same_month_envelope [CA_row, TX_row]) \<and>
   WHERE brand_where (ev_registrations same_month_store) =
     filter brand_qualifying (ev_registrations same_month_store) \<and>
   WHERE state_where (ev_registrations same_month_store) =
     filter state_qualifying (ev_registrations same_month_store) \<and>
   WHERE chart_where (ev_registrations same_month_store) =
     filter qualifying (ev_registrations same_month_store) \<and>
   set (filter qualifying (ev_registrations same_month_store)) \<subseteq>
     set (filter brand_qualifying (ev_registrations same_month_store)) \<inter>
     set (filter state_qualifying (ev_registrations same_month_store)) \<and>
   brands (filters (same_month_envelope [CA_row, TX_row])) =
     DISTINCT_ORDER_BY (lc_collate same_month_store)
       (map (\<lambda>g. UPPER (lc_upper same_month_store) (TRIM (reg_brand g)))
         (filter brand_qualifying (ev_registrations same_month_store))) \<and>
   states (filters (same_month_envelope [CA_row, TX_row])) =
     DISTINCT_ORDER_BY (lc_collate same_month_store)
       (map (\<lambda>g. UPPER (lc_upper same_month_store) (TRIM (reg_state g)))
         (filter state_qualifying (ev_registrations same_month_store))) \<and>
   set (map brand (chartData (same_month_envelope [CA_row, TX_row]))) \<subseteq>
     set (brands (filters (same_month_envelope [CA_row, TX_row]))) \<and>
   set (map state (chartData (same_month_envelope [CA_row, TX_row]))) \<subseteq>
     set (states (filters (same_month_envelope [CA_row, TX_row])))"
proof -
  have p: "pool_query same_month_store (same_month_results [CA_row, TX_row])"
    by (rule pool_query_same_month(1))
  have b: "body (api_data_handler (express_fresh example_etag) server_js_message example_request
          (same_month_results [CA_row, TX_row])) =
     Json (same_month_envelope [CA_row, TX_row])"
    by (rule same_month_body) (rule unconditional_examples)
  from filter_queries_own_column_predicate[OF p b] p b show ?thesis by blast
qed

text \<open>
  C8, as stated: two calls on the same store give identical responses. This fails for
  the chart rows. \<open>ORDER BY month\<close> does not order two groups of the same month, so with
  one registration in California and one in Texas, both in March 2024, the chart query
  may answer with the two rows in either order, and the two successful responses differ.
\<close>

theorem same_store_responses_differ_counterexample:
  "pool_query same_month_store (same_month_results [CA_row, TX_row]) \<and>
   pool_query same_month_store (same_month_results [TX_row, CA_row]) \<and>
   status (api_data (express_fresh example_etag) example_request (same_month_results [CA_row, TX_row])) = 200 \<and>
   status (api_data (express_fresh example_etag) example_request (same_month_results [TX_row, CA_row])) = 200 \<and>
   api_data (express_fresh example_etag) example_request (same_month_results [CA_row, TX_row]) \<noteq>
     api_data (express_fresh example_etag) example_request (same_month_results [TX_row, CA_row])"
proof -
  have "CA_row \<noteq> TX_row" by (simp add: CA_row_def TX_row_def)
  then show ?thesis
    by (simp add: pool_query_same_month api_data_def same_month_results_response
        unconditional_not_fresh unconditional_examples same_month_envelope_def)
qed

text \<open>
  C8, amended. Two successful calls on the same store, with any requests, agree on the
  status, on the three filter lists, on the chart rows as a bag and on the months of the
  chart rows in sequence; the chart rows are identical when no two of them have the same
  month, so only rows of the same month can come in a different order. The station rows
  agree as a bag (their query has no \<open>ORDER BY\<close>).
\<close>

theorem same_store_responses_agree_up_to_ties:
  assumes "pool_query st qs1" and "pool_query st qs2"
    and "body (api_data_handler fresh message req1 qs1) = Json env1"
    and "body (api_data_handler fresh message req2 qs2) = Json env2"
  shows "status (api_data_handler fresh message req1 qs1) = status (api_data_handler fresh message req2 qs2) \<and>
    filters env1 = filters env2 \<and>
    mset (chartData env1) = mset (chartData env2) \<and>
    map month (chartData env1) = map month (chartData env2) \<and>
    (distinct (map month (chartData env1)) \<longrightarrow> chartData env1 = chartData env2) \<and>
    mset (stationData env1) = mset (stationData env2)"
proof -
  note e1 = success_envelope[OF assms(1,3)] and e2 = success_envelope[OF assms(2,4)]
  have "filters env1 = filters env2"
    by (rule filter_lists.equality) (simp_all add: e1 e2)
  moreover have "mset (stationData env1) = mset (stationData env2)"
    using e1(2) e2(2) by (simp add: stationQuery_def)
  moreover note chartQuery_months[OF e1(1) e2(1)]
  ultimately show ?thesis by (simp add: e1(6) e2(6))
qed

theorem same_store_responses_agree_up_to_ties_witness:
  "pool_query (scenario C_upper C_collation example_stations) (scenario_results example_stations) \<and>
   pool_query (scenario C_upper C_collation example_stations) (scenario_results (rev example_stations)) \<and>
   body (api_data_handler (express_fresh example_etag) server_js_message example_request
          (scenario_results example_stations)) =
     Json (scenario_envelope example_stations) \<and>
   body (api_data_handler (express_fresh example_etag) server_js_message example_request
          (scenario_results (rev example_stations))) =
     Json (scenario_envelope (rev example_stations)) \<and>
   distinct (map month (chartData (scenario_envelope example_stations))) \<and>
   filters (scenario_envelope example_stations) = filters (scenario_envelope (rev example_stations)) \<and>
   chartData (scenario_envelope example_stations) = chartData (scenario_envelope (rev example_stations)) \<and>
   mset (stationData (scenario_envelope example_stations)) =
     mset (stationData (scenario_envelope (rev example_stations)))"
proof -
  have p1: "pool_query (scenario C_upper C_collation example_stations) (scenario_results example_stations)"
    by (rule pool_query_scenario[OF upper_on_ascii_C_upper]) simp
  have p2: "pool_query (scenario C_upper C_collation example_stations) (scenario_results (rev example_stations))"
    by (rule pool_query_scenario[OF upper_on_ascii_C_upper]) simp
  have b1: "body (api_data_handler (express_fresh example_etag) server_js_message example_request
          (scenario_results example_stations)) =
     Json (scenario_envelope example_stations)"
    by (rule scenario_body) (rule unconditional_examples)
  have b2: "body (api_data_handler (express_fresh example_etag) server_js_message example_request
          (scenario_results (rev example_stations))) =
     Json (scenario_envelope (rev example_stations))"
    by (rule scenario_body) (rule unconditional_examples)
  have d: "distinct (map month (chartData (scenario_envelope example_stations)))"
    by (simp add: scenario_envelope_def)
  from same_store_responses_agree_up_to_ties[OF p1 p2 b1 b2] d p1 p2 b1 b2 show ?thesis by blast
qed

text \<open>
  C5. In a successful response the lists \<open>filters.states\<close> and \<open>filters.brands\<close> hold
  texts (no NULL) in strictly ascending order, hence without duplicates. The order is
  that of the collation of the database, whichever it is.
\<close>

theorem filter_lists_strictly_ascending:
  assumes "pool_query st qs" and "body (api_data_handler fresh message req qs) = Json env"
  shows "(\<exists>ss. states (filters env) = map Some ss \<and>
       sorted_wrt (collate_less (lc_collate st)) ss \<and> distinct ss) \<and>
    (\<exists>bs. brands (filters env) = map Some bs \<and>
       sorted_wrt (collate_less (lc_collate st)) bs \<and> distinct bs)"
proof -
  from DISTINCT_ORDER_BY_texts[OF state_texts_not_None, of "lc_collate st" "lc_upper st" "ev_registrations st"]
  have "\<exists>ss. states (filters env) = map Some ss \<and>
       sorted_wrt (collate_less (lc_collate st)) ss \<and> distinct ss"
    unfolding success_states[OF assms] by blast
  moreover
  from DISTINCT_ORDER_BY_texts[OF brand_texts_not_None, of "lc_collate st" "lc_upper st" "ev_registrations st"]
  have "\<exists>bs. brands (filters env) = map Some bs \<and>
       sorted_wrt (collate_less (lc_collate st)) bs \<and> distinct bs"
    unfolding success_brands[OF assms] by blast
  ultimately show ?thesis by blast
qed

theorem filter_lists_strictly_ascending_witness:
  "pool_query same_month_store (same_month_results [CA_row, TX_row]) \<and>
   body (api_data_handler (express_fresh example_etag) server_js_message example_request
          (same_month_results [CA_row, TX_row])) =
     Json (same_month_envelope [CA_row, TX_row]) \<and>
   (\<exists>ss. states (filters (same_month_envelope [CA_row, TX_row])) = map Some ss \<and>
      sorted_wrt (collate_less (lc_collate same_month_store)) ss \<and> distinct ss) \<and>
   (\<exists>bs. brands (filters (same_month_envelope [CA_row, TX_row])) = map Some bs \<and>
      sorted_wrt (collate_less (lc_collate same_month_store)) bs \<and> distinct bs)"
proof -
  have p: "pool_query same_month_store (same_month_results [CA_row, TX_row])"
    by (rule pool_query_same_month(1))
  have b: "body (api_data_handler (express_fresh example_etag) server_js_message example_request
          (same_month_results [CA_row, TX_row])) =
     Json (same_month_envelope [CA_row, TX_row])"
    by (rule same_month_body) (rule unconditional_examples)
  from filter_lists_strictly_ascending[OF p b] p b show ?thesis by blast
qed

text \<open>
  C6, as stated: \<open>filters.years\<close> lists the years in ascending order. This fails: the
  query orders the texts of the years, not the years. With registrations of the years 999
  and 2024 (in the \<open>C\<close> locale) the list is \<open>2024\<close>, \<open>999\<close>, which is not ascending by
  year.
\<close>

theorem years_not_in_year_order_counterexample:
  "pool_query two_years_store two_years_results \<and>
   api_data (express_fresh example_etag) example_request two_years_results =
     \<lparr>status = 200, body = Json two_years_envelope\<rparr> \<and>
   years (filters two_years_envelope) = [Some ''2024'', Some ''999''] \<and>
   year_value ''2024'' = 2024 \<and> year_value ''999'' = 999 \<and>
   \<not> sorted_wrt (<) (map year_value [''2024'', ''999''])"
  by (simp add: pool_query_two_years api_data_def two_years_response unconditional_examples
      two_years_not_ascending)
    (simp add: two_years_envelope_def)

text \<open>
  C6, amended. When no registration has an infinite date, \<open>filters.years\<close> of a
  successful response holds, as text and without NULL, the years of the dates of the
  registrations that have a date and a fuel of the set (a year before the common era with
  a minus sign): every such year once, as many entries as distinct years, strictly
  ascending in the order that the collation of the database gives the texts. Under the
  byte order of the \<open>C\<close> locale and with years of four digits only, that is the order of
  the years.
\<close>

theorem years_filter_one_entry_per_year:
  assumes "pool_query st qs" and "body (api_data_handler fresh message req qs) = Json env"
    and "calendar_dates st"
  shows "\<exists>ys. years (filters env) = map Some ys \<and>
     sorted_wrt (collate_less (lc_collate st)) ys \<and> distinct ys \<and>
     set ys = {int_text y | y m d g.
        g \<in> set (ev_registrations st) \<and> date_reg g = Some (Date y m d) \<and> ev_fuel (fuel g)} \<and>
     length ys = card {y | y m d g.
        g \<in> set (ev_registrations st) \<and> date_reg g = Some (Date y m d) \<and> ev_fuel (fuel g)} \<and>
     (lc_collate st = C_collation \<and> four_digit_years st \<longrightarrow> sorted_wrt (<) (map year_value ys))"
proof -
  let ?Y = "{y | y m d g.
        g \<in> set (ev_registrations st) \<and> date_reg g = Some (Date y m d) \<and> ev_fuel (fuel g)}"
  let ?vs = "map (\<lambda>g. EXTRACT_YEAR_text (date_reg g)) (filter year_qualifying (ev_registrations st))"
  from DISTINCT_ORDER_BY_texts[OF year_texts_not_None, of "lc_collate st" "ev_registrations st"]
  obtain ys where ys: "years (filters env) = map Some ys"
    "sorted_wrt (collate_less (lc_collate st)) ys" "distinct ys"
    "set ys = {s. Some s \<in> set ?vs}"
    unfolding success_years[OF assms(1,2)] by blast
  have cal: "date_reg g \<noteq> Some Infinity \<and> date_reg g \<noteq> Some Minus_infinity"
    if "g \<in> set (ev_registrations st)" for g
    using assms(3) that by (auto simp: calendar_dates_def calendar_date_def list_all_iff)
  have "{s. Some s \<in> set ?vs} = int_text ` ?Y"
  proof (intro set_eqI iffI)
    fix s assume "s \<in> {s. Some s \<in> set ?vs}"
    then obtain g where g: "g \<in> set (ev_registrations st)" "year_qualifying g"
      "EXTRACT_YEAR_text (date_reg g) = Some s" by auto
    from g(2) obtain dt where dt: "date_reg g = Some dt" by (auto simp: year_qualifying_def)
    with cal[OF g(1)] obtain y m d where d: "dt = Date y m d" by (cases dt) auto
    from g(3) dt d have "s = int_text y" by (simp add: EXTRACT_YEAR_text_def)
    moreover from g dt d have "y \<in> ?Y" by (auto simp: year_qualifying_def)
    ultimately show "s \<in> int_text ` ?Y" by blast
  next
    fix s assume "s \<in> int_text ` ?Y"
    then obtain y m d g where g: "s = int_text y" "g \<in> set (ev_registrations st)"
      "date_reg g = Some (Date y m d)" "ev_fuel (fuel g)" by auto
    then have "year_qualifying g" "EXTRACT_YEAR_text (date_reg g) = Some s"
      by (simp_all add: year_qualifying_def EXTRACT_YEAR_text_def)
    with g(2) show "s \<in> {s. Some s \<in> set ?vs}" by force
  qed
  with ys(4) have s: "set ys = int_text ` ?Y" by simp
  have "length ys = card (set ys)" using ys(3) by (simp add: distinct_card)
  also have "\<dots> = card ?Y"
    unfolding s by (rule card_image) (rule inj_on_subset[OF inj_int_text subset_UNIV])
  finally have l: "length ys = card ?Y" .
  have s': "set ys = {int_text y | y m d g.
        g \<in> set (ev_registrations st) \<and> date_reg g = Some (Date y m d) \<and> ev_fuel (fuel g)}"
    unfolding s by blast
  have o: "sorted_wrt (<) (map year_value ys)"
    if c: "lc_collate st = C_collation" and f: "four_digit_years st"
  proof -
    have r: "1000 \<le> y \<and> y \<le> 9999" if "y \<in> ?Y" for y
    proof -
      from that obtain m d g where "g \<in> set (ev_registrations st)" "date_reg g = Some (Date y m d)"
        by blast
      with f show ?thesis
        by (auto simp: four_digit_years_def four_digit_year_def list_all_iff)
    qed
    have "year_value a < year_value b" if "a \<in> set ys" "b \<in> set ys" "collate_less C_collation a b" for a b
    proof -
      from that(1,2) obtain y z where yz: "a = int_text y" "y \<in> ?Y" "b = int_text z" "z \<in> ?Y"
        unfolding s by blast
      from that(3) have "int_text y < int_text z" by (simp add: yz collate_less_C)
      with r[OF yz(2)] r[OF yz(4)] have "y < z" by (simp add: four_digit_year_text)
      then show ?thesis by (simp add: yz year_value_int_text)
    qed
    with ys(2) have "sorted_wrt (\<lambda>a b. year_value a < year_value b) ys"
      unfolding c by (auto intro: sorted_wrt_mono_rel[rotated])
    then show ?thesis by (simp add: sorted_wrt_map)
  qed
  from ys(1-3) s' l o show ?thesis by blast
qed

theorem years_filter_one_entry_per_year_witness:
  "pool_query same_month_store (same_month_results [CA_row, TX_row]) \<and>
   body (api_data_handler (express_fresh example_etag) server_js_message example_request
          (same_month_results [CA_row, TX_row])) =
     Json (same_month_envelope [CA_row, TX_row]) \<and>
   calendar_dates same_month_store \<and>
   lc_collate same_month_store = C_collation \<and> four_digit_years same_month_store \<and>
   (\<exists>ys. years (filters (same_month_envelope [CA_row, TX_row])) = map Some ys \<and>
     sorted_wrt (collate_less (lc_collate same_month_store)) ys \<and> distinct ys \<and>
     set ys = {int_text y | y m d g.
        g \<in> set (ev_registrations same_month_store) \<and> date_reg g = Some (Date y m d) \<and>
        ev_fuel (fuel g)} \<and>
     length ys = card {y | y m d g.
        g \<in> set (ev_registrations same_month_store) \<and> date_reg g = Some (Date y m d) \<and>
        ev_fuel (fuel g)} \<and>
     sorted_wrt (<) (map year_value ys))"
proof -
  have p: "pool_query same_month_store (same_month_results [CA_row, TX_row])"
    by (rule pool_query_same_month(1))
  have b: "body (api_data_handler (express_fresh example_etag) server_js_message example_request
          (same_month_results [CA_row, TX_row])) =
     Json (same_month_envelope [CA_row, TX_row])"
    by (rule same_month_body) (rule unconditional_examples)
  note c = same_month_calendar
  from years_filter_one_entry_per_year[OF p b c(1)] p b c show ?thesis by blast
qed

text \<open>
  C4, as stated: on the scenario the chart row has \<open>registrations: 2\<close>, a number. This
  fails: \<open>COUNT(*)\<close> is a \<open>bigint\<close>, which reaches the handler as text, and the handler
  passes the rows on as they are, so the row of the response has the text \<open>2\<close>.
\<close>

theorem scenario_count_is_text_counterexample:
  "pool_query (scenario C_upper C_collation example_stations) (scenario_results example_stations) \<and>
   api_data (express_fresh example_etag) example_request (scenario_results example_stations) =
     \<lparr>status = 200, body = Json (scenario_envelope example_stations)\<rparr> \<and>
   chartData (scenario_envelope example_stations) = [scenario_row] \<and>
   registrations scenario_row = JS_string ''2'' \<and>
   chartData (scenario_envelope example_stations) \<noteq> [scenario_row_number]"
proof -
  have p: "pool_query (scenario C_upper C_collation example_stations) (scenario_results example_stations)"
    by (rule pool_query_scenario[OF upper_on_ascii_C_upper]) simp
  have r: "api_data (express_fresh example_etag) example_request (scenario_results example_stations) =
     \<lparr>status = 200, body = Json (scenario_envelope example_stations)\<rparr>"
    unfolding api_data_def
    by (rule scenario_results_response) (simp add: unconditional_not_fresh unconditional_examples)
  show ?thesis
    using p r by (simp add: scenario_envelope_def scenario_row_def scenario_row_number_def)
qed

text \<open>
  C4, amended. On the store of the scenario (two electric registrations of Tesla in
  California in March 2024, written differently, and one diesel registration), with any
  charging stations and in any locale whose \<open>UPPER\<close> treats ASCII texts as the \<open>C\<close>
  locale does, a successful response holds the single chart row \<open>CA, TESLA, 2024-03\<close>
  with the count as the text \<open>2\<close>, and the filter lists \<open>[TESLA]\<close>, \<open>[CA]\<close> and
  \<open>[2024]\<close>.
\<close>

theorem scenario_response:
  assumes "upper_on_ascii up" and "pool_query (scenario up c sts) qs"
    and "status (api_data_handler fresh message req qs) = 200"
  shows "\<exists>t. mset t = mset sts \<and>
    api_data_handler fresh message req qs =
      \<lparr>status = 200,
       body = Json \<lparr>chartData =
           [\<lparr>state = Some ''CA'', brand = Some ''TESLA'', month = Some ''2024-03'',
             registrations = JS_string ''2''\<rparr>],
         stationData = t,
         filters = \<lparr>brands = [Some ''TESLA''], states = [Some ''CA''], years = [Some ''2024'']\<rparr>\<rparr>\<rparr>"
proof -
  from status_200_body[OF assms(3)] obtain env
    where r: "api_data_handler fresh message req qs = \<lparr>status = 200, body = Json env\<rparr>" by blast
  then have b: "body (api_data_handler fresh message req qs) = Json env" by simp
  note e = success_envelope[OF assms(2) b]
  from e(1) have "mset (chartData env) = mset [scenario_row]"
    by (simp add: chartQuery_def scenario_fields scenario_chart_groups[OF assms(1)])
  then have "chartData env = [scenario_row]"
    by (rule mset_eq_single)
  then have c: "chartData env =
      [\<lparr>state = Some ''CA'', brand = Some ''TESLA'', month = Some ''2024-03'',
        registrations = JS_string ''2''\<rparr>]"
    by (simp add: scenario_row_def)
  from e(2) have t: "mset (stationData env) = mset sts"
    by (simp add: stationQuery_def scenario_fields)
  have f: "filters env = \<lparr>brands = [Some ''TESLA''], states = [Some ''CA''], years = [Some ''2024'']\<rparr>"
    using e(3-5)
    by (simp add: scenario_brandQuery[OF assms(1)] scenario_stateQuery[OF assms(1)] scenario_yearQuery)
  have "env = \<lparr>chartData =
           [\<lparr>state = Some ''CA'', brand = Some ''TESLA'', month = Some ''2024-03'',
             registrations = JS_string ''2''\<rparr>],
         stationData = stationData env,
         filters = \<lparr>brands = [Some ''TESLA''], states = [Some ''CA''], years = [Some ''2024'']\<rparr>\<rparr>"
    using c f by simp
  with r t show ?thesis by metis
qed

theorem scenario_response_witness:
  "upper_on_ascii C_upper \<and>
   pool_query (scenario C_upper C_collation example_stations) (scenario_results example_stations) \<and>
   status (api_data_handler (express_fresh example_etag) server_js_message example_request
            (scenario_results example_stations)) = 200 \<and>
   (\<exists>t. mset t = mset example_stations \<and>
    api_data_handler (express_fresh example_etag) server_js_message example_request
        (scenario_results example_stations) =
      \<lparr>status = 200,
       body = Json \<lparr>chartData =
           [\<lparr>state = Some ''CA'', brand = Some ''TESLA'', month = Some ''2024-03'',
             registrations = JS_string ''2''\<rparr>],
         stationData = t,
         filters = \<lparr>brands = [Some ''TESLA''], states = [Some ''CA''], years = [Some ''2024'']\<rparr>\<rparr>\<rparr>)"
proof -
  have u: "upper_on_ascii C_upper" by (rule upper_on_ascii_C_upper)
  have p: "pool_query (scenario C_upper C_collation example_stations) (scenario_results example_stations)"
    by (rule pool_query_scenario[OF upper_on_ascii_C_upper]) simp
  have s: "status (api_data_handler (express_fresh example_etag) server_js_message example_request
            (scenario_results example_stations)) = 200"
    by (simp add: scenario_results_response unconditional_not_fresh unconditional_examples)
  from scenario_response[OF u p s] u p s show ?thesis by blast
qed

text \<open>
  C2: every chart row has a month that is not NULL. The code intends this (its \<open>WHERE\<close>
  requires \<open>date_reg IS NOT NULL\<close>) but misses the infinite dates: the date \<open>infinity\<close>
  is not NULL, passes the \<open>WHERE\<close>, and \<open>TO_CHAR\<close> returns NULL for it. On the store
  whose one registration (California, Tesla, electric) has that date, the successful
  response has a chart row whose month is NULL.
\<close>

theorem infinite_date_gives_null_month:
  "list_all qualifying (ev_registrations infinite_date_store) \<and>
   pool_query infinite_date_store infinite_date_results \<and>
   api_data (express_fresh example_etag) example_request infinite_date_results =
     \<lparr>status = 200, body = Json infinite_date_envelope\<rparr> \<and>
   chartData infinite_date_envelope = [infinite_date_row] \<and>
   state infinite_date_row = Some ''CA'' \<and> brand infinite_date_row = Some ''TESLA'' \<and>
   month infinite_date_row = None"
  by (simp add: infinite_date_qualifying pool_query_infinite_date api_data_def
      infinite_date_response unconditional_examples)
    (simp add: infinite_date_envelope_def infinite_date_row_def)

text \<open>
  C9, as stated: the request has no influence on status and body. This fails. The
  handler's own code never reads the request, but \<open>res.json\<close> does: for a request that
  the framework finds fresh (here one with \<open>If-None-Match: *\<close>) it answers 304 with no
  body, where a request without that header gets 200 and the envelope, on the same store
  and the same outcomes of the queries.
\<close>

theorem conditional_request_changes_response_counterexample:
  "pool_query (scenario C_upper C_collation example_stations) (scenario_results example_stations) \<and>
   api_data (express_fresh example_etag) plain_request (scenario_results example_stations) =
     \<lparr>status = 200, body = Json (scenario_envelope example_stations)\<rparr> \<and>
   api_data (express_fresh example_etag) conditional_request (scenario_results example_stations) =
     \<lparr>status = 304, body = Empty\<rparr> \<and>
   api_data (express_fresh example_etag) plain_request (scenario_results example_stations) \<noteq>
     api_data (express_fresh example_etag) conditional_request (scenario_results example_stations)"
proof -
  have p: "pool_query (scenario C_upper C_collation example_stations) (scenario_results example_stations)"
    by (rule pool_query_scenario[OF upper_on_ascii_C_upper]) simp
  have a: "api_data (express_fresh example_etag) plain_request (scenario_results example_stations) =
     \<lparr>status = 200, body = Json (scenario_envelope example_stations)\<rparr>"
    unfolding api_data_def
    by (rule scenario_results_response) (simp add: unconditional_not_fresh unconditional_examples)
  have b: "api_data (express_fresh example_etag) conditional_request (scenario_results example_stations) =
     \<lparr>status = 304, body = Empty\<rparr>"
    by (simp add: api_data_def api_data_handler_def scenario_results_def res_json_def
        conditional_request_fresh)
  show ?thesis using p by (simp add: a b)
qed

text \<open>
  C9, amended. The request reaches the response only through the freshness test that
  \<open>res.json\<close> applies. With the same outcomes of the five queries, the responses to two
  requests are equal, or one is 200 with the envelope and the other is 304 with no body,
  and when a query has failed they are equal. Two requests without \<open>If-None-Match\<close> and
  without \<open>If-Modified-Since\<close>, whatever else they contain, get the same status and the
  same body, and the responses that are possible against a store are the same for both.
\<close>

theorem request_matters_only_through_freshness:
  assumes "unconditional req1" and "unconditional req2"
  shows "api_data_handler (express_fresh etag) message req1 qs =
      api_data_handler (express_fresh etag) message req2 qs \<and>
    {api_data_handler (express_fresh etag) message req1 qs' | qs'. pool_query st qs'} =
      {api_data_handler (express_fresh etag) message req2 qs' | qs'. pool_query st qs'} \<and>
    (api_data_handler fresh message req3 qs = api_data_handler fresh message req4 qs \<or>
     (\<exists>env. api_data_handler fresh message req3 qs = \<lparr>status = 200, body = Json env\<rparr> \<and>
        api_data_handler fresh message req4 qs = \<lparr>status = 304, body = Empty\<rparr>) \<or>
     (\<exists>env. api_data_handler fresh message req3 qs = \<lparr>status = 304, body = Empty\<rparr> \<and>
        api_data_handler fresh message req4 qs = \<lparr>status = 200, body = Json env\<rparr>))"
proof -
  have e: "api_data_handler (express_fresh etag) message req1 q =
      api_data_handler (express_fresh etag) message req2 q" for q
  proof -
    have "res_json (express_fresh etag) req1 = res_json (express_fresh etag) req2"
      by (simp add: fun_eq_iff res_json_def unconditional_not_fresh[OF assms(1)]
          unconditional_not_fresh[OF assms(2)])
    then have "res_json (express_fresh etag) req1 env = res_json (express_fresh etag) req2 env" for env
      by simp
    then show ?thesis
      by (cases "fulfilled (chartResult q)"; cases "fulfilled (brandResult q)";
          cases "fulfilled (stateResult q)"; cases "fulfilled (yearResult q)";
          cases "fulfilled (stationResult q)")
        (simp_all add: api_data_handler_def)
  qed
  have t: "api_data_handler fresh message req3 qs = api_data_handler fresh message req4 qs \<or>
     (\<exists>env. api_data_handler fresh message req3 qs = \<lparr>status = 200, body = Json env\<rparr> \<and>
        api_data_handler fresh message req4 qs = \<lparr>status = 304, body = Empty\<rparr>) \<or>
     (\<exists>env. api_data_handler fresh message req3 qs = \<lparr>status = 304, body = Empty\<rparr> \<and>
        api_data_handler fresh message req4 qs = \<lparr>status = 200, body = Json env\<rparr>)"
  proof (cases "fulfilled (chartResult qs) = None \<or> fulfilled (brandResult qs) = None \<or>
     fulfilled (stateResult qs) = None \<or> fulfilled (yearResult qs) = None \<or>
     fulfilled (stationResult qs) = None")
    case True
    then show ?thesis by (simp only: handler_failure simp_thms)
  next
    case False
    then obtain c b s y t where f: "fulfilled (chartResult qs) = Some c"
      "fulfilled (brandResult qs) = Some b" "fulfilled (stateResult qs) = Some s"
      "fulfilled (yearResult qs) = Some y" "fulfilled (stationResult qs) = Some t"
      by (rule all_fulfilled)
    show ?thesis
      unfolding handler_success[OF f] by (simp add: res_json_def)
  qed
  from e t show ?thesis by simp
qed

theorem request_matters_only_through_freshness_witness:
  "unconditional example_request \<and> unconditional plain_request \<and>
   example_request \<noteq> plain_request \<and>
   api_data_handler (express_fresh example_etag) server_js_message example_request
       (scenario_results example_stations) =
     api_data_handler (express_fresh example_etag) server_js_message plain_request
       (scenario_results example_stations) \<and>
   {api_data_handler (express_fresh example_etag) server_js_message example_request qs' | qs'.
      pool_query (scenario C_upper C_collation example_stations) qs'} =
     {api_data_handler (express_fresh example_etag) server_js_message plain_request qs' | qs'.
      pool_query (scenario C_upper C_collation example_stations) qs'}"
proof -
  have u: "unconditional example_request" "unconditional plain_request"
    by (rule unconditional_examples)+
  have n: "example_request \<noteq> plain_request"
    by (simp add: example_request_def plain_request_def)
  from request_matters_only_through_freshness[OF u, of example_etag server_js_message
      "scenario_results example_stations" "scenario C_upper C_collation example_stations"]
    u n show ?thesis by blast
qed

end
